theory Spec2Isabelle
  imports Complex_Main
begin

section \<open>Python values used by the monitor\<close>

text \<open>
  Exceptions are values: a function that can raise returns \<open>py_error + 'a\<close>, with
  \<open>Inl\<close> for the exception. \<open>then_ok\<close> sequences two such computations, as two
  consecutive statements do.
\<close>

datatype py_error = ValueError | ZeroDivisionError

definition then_ok :: "'e + 'a \<Rightarrow> ('a \<Rightarrow> 'e + 'b) \<Rightarrow> 'e + 'b" where
  "then_ok r f = (case r of Inl e \<Rightarrow> Inl e | Inr v \<Rightarrow> f v)"

text \<open>
  \<^verbatim>\<open>collections.deque(maxlen=m)\<close>: \<^verbatim>\<open>append\<close> adds on the right and, when the deque is
  then longer than \<open>m\<close>, discards one element on the left.
\<close>

definition deque_append :: "nat \<Rightarrow> 'a list \<Rightarrow> 'a \<Rightarrow> 'a list" where
  "deque_append maxlen xs v =
     (let ys = xs @ [v] in if maxlen < length ys then tl ys else ys)"

text \<open>\<^verbatim>\<open>max(xs)\<close> raises ValueError on an empty sequence.\<close>

definition py_max :: "int list \<Rightarrow> py_error + int" where
  "py_max xs = (case xs of [] \<Rightarrow> Inl ValueError | x # r \<Rightarrow> Inr (fold max r x))"

text \<open>
  \<^verbatim>\<open>a / b\<close> on Python ints raises ZeroDivisionError when \<open>b\<close> is 0. The model keeps the
  exact quotient; Python returns the double nearest to it.
\<close>

definition py_truediv :: "int \<Rightarrow> int \<Rightarrow> py_error + rat" where
  "py_truediv a b = (if b = 0 then Inl ZeroDivisionError else Inr (of_int a / of_int b))"

section \<open>NetworkMonitor\<close>

text \<open>
  One entry of \<^verbatim>\<open>bandwidth_data\<close> or \<^verbatim>\<open>packet_data\<close>: the dict
  \<^verbatim>\<open>{"sent": deque(maxlen=100), "received": deque(maxlen=100)}\<close>.
\<close>

record window =
  sent :: "int list"
  received :: "int list"

definition MAXLEN :: nat where
  "MAXLEN = 100"

definition new_window :: window where
  "new_window = \<lparr>sent = [], received = []\<rparr>"

datatype level = INFO | WARNING | ERROR

text \<open>The row of table \<^verbatim>\<open>bandwidth_logs\<close> that \<^verbatim>\<open>add_bandwidth_log\<close> inserts.\<close>

record bandwidth_log =
  log_ip_address :: string
  log_bytes_sent :: int
  log_bytes_received :: int
  log_packets_sent :: int
  log_packets_received :: int
  log_connection_type :: string

text \<open>The dict that \<^verbatim>\<open>_monitor_loop\<close> puts on \<^verbatim>\<open>data_queue\<close>; time is a clock reading.\<close>

record queue_item =
  q_ip :: string
  q_bytes_sent :: int
  q_bytes_received :: int
  q_packets_sent :: int
  q_packets_received :: int
  q_timestamp :: nat

text \<open>
  The thread that runs \<^verbatim>\<open>_monitor_loop\<close>: about to test \<^verbatim>\<open>while self.monitoring\<close>,
  inside the \<^verbatim>\<open>for\<close> loop with the targets of the copied set still to visit, or returned.
\<close>

datatype worker = At_while | In_for "string list" | Finished

text \<open>
  The fields of \<^verbatim>\<open>NetworkMonitor\<close>. \<open>db\<close> is the table behind \<^verbatim>\<open>db_manager\<close>,
  \<open>logging\<close> the records written through the \<^verbatim>\<open>logging\<close> module, \<open>threads\<close> the daemon
  threads that \<^verbatim>\<open>start_monitoring\<close> has started. The two defaultdicts are maps: a key
  that is absent has no entry yet.
\<close>

record network_monitor =
  monitoring :: bool
  monitored_ips :: "string set"
  bandwidth_data :: "string \<rightharpoonup> window"
  packet_data :: "string \<rightharpoonup> window"
  db :: "bandwidth_log list"
  data_queue :: "queue_item list"
  logging :: "(level \<times> string) list"
  threads :: "worker list"

definition init_monitor :: network_monitor where
  "init_monitor =
     \<lparr>monitoring = False, monitored_ips = {}, bandwidth_data = Map.empty,
      packet_data = Map.empty, db = [], data_queue = [], logging = [], threads = []\<rparr>"

text \<open>
  \<^verbatim>\<open>add_ip_to_monitor\<close>. \<^verbatim>\<open>ipaddress.ip_address\<close> belongs to the Python standard library;
  \<open>valid\<close> is the set of strings it accepts (it raises ValueError on every other string).
\<close>

definition add_ip_to_monitor ::
    "(string \<Rightarrow> bool) \<Rightarrow> network_monitor \<Rightarrow> string \<Rightarrow> bool \<times> network_monitor" where
  "add_ip_to_monitor valid s ip_address =
     (if valid ip_address
      then (True, s\<lparr>monitored_ips := insert ip_address (monitored_ips s),
                     logging := logging s @ [(INFO, ''Added IP '' @ ip_address @ '' to monitoring list'')]\<rparr>)
      else (False, s\<lparr>logging := logging s @ [(ERROR, ''Invalid IP address: '' @ ip_address)]\<rparr>))"

definition remove_ip_from_monitor :: "network_monitor \<Rightarrow> string \<Rightarrow> network_monitor" where
  "remove_ip_from_monitor s ip_address =
     s\<lparr>monitored_ips := monitored_ips s - {ip_address},
       logging := logging s @ [(INFO, ''Removed IP '' @ ip_address @ '' from monitoring list'')]\<rparr>"

text \<open>
  \<^verbatim>\<open>d[ip]["sent"].append(v)\<close> on a defaultdict: a missing key gets a new window first.
\<close>

definition append_sent :: "(string \<rightharpoonup> window) \<Rightarrow> string \<Rightarrow> int \<Rightarrow> (string \<rightharpoonup> window)" where
  "append_sent d ip v =
     (let w = (case d ip of None \<Rightarrow> new_window | Some w \<Rightarrow> w)
      in d(ip \<mapsto> w\<lparr>sent := deque_append MAXLEN (sent w) v\<rparr>))"

definition append_received :: "(string \<rightharpoonup> window) \<Rightarrow> string \<Rightarrow> int \<Rightarrow> (string \<rightharpoonup> window)" where
  "append_received d ip v =
     (let w = (case d ip of None \<Rightarrow> new_window | Some w \<Rightarrow> w)
      in d(ip \<mapsto> w\<lparr>received := deque_append MAXLEN (received w) v\<rparr>))"

text \<open>The result of \<^verbatim>\<open>simulate_ip_traffic\<close>: random, so an input of the model.\<close>

record traffic =
  bytes_sent :: int
  bytes_received :: int
  packets_sent :: int
  packets_received :: int

text \<open>The four appends of the loop body that store a sample in memory.\<close>

definition store_sample :: "network_monitor \<Rightarrow> string \<Rightarrow> traffic \<Rightarrow> network_monitor" where
  "store_sample s ip t =
     s\<lparr>bandwidth_data :=
          append_received (append_sent (bandwidth_data s) ip (bytes_sent t)) ip (bytes_received t),
       packet_data :=
          append_received (append_sent (packet_data s) ip (packets_sent t)) ip (packets_received t)\<rparr>"

section \<open>BandwidthAnalyzer\<close>

text \<open>\<^verbatim>\<open>d.get(ip, {"sent": deque(), "received": deque()})\<close>: no entry is created.\<close>

definition window_get :: "(string \<rightharpoonup> window) \<Rightarrow> string \<Rightarrow> window" where
  "window_get d ip = (case d ip of None \<Rightarrow> \<lparr>sent = [], received = []\<rparr> | Some w \<Rightarrow> w)"

definition get_total_bandwidth :: "network_monitor \<Rightarrow> string \<Rightarrow> int \<times> int" where
  "get_total_bandwidth s ip =
     (let data = window_get (bandwidth_data s) ip
      in (sum_list (sent data), sum_list (received data)))"

definition get_average_bandwidth :: "network_monitor \<Rightarrow> string \<Rightarrow> py_error + rat \<times> rat" where
  "get_average_bandwidth s ip =
     (let data = window_get (bandwidth_data s) ip
      in if sent data = [] \<or> received data = [] then Inr (0, 0)
         else then_ok (py_truediv (sum_list (sent data)) (int (length (sent data))))
                (\<lambda>avg_sent.
              then_ok (py_truediv (sum_list (received data)) (int (length (received data))))
                (\<lambda>avg_received. Inr (avg_sent, avg_received))))"

definition get_peak_bandwidth :: "network_monitor \<Rightarrow> string \<Rightarrow> py_error + int \<times> int" where
  "get_peak_bandwidth s ip =
     (let data = window_get (bandwidth_data s) ip
      in if sent data = [] \<or> received data = [] then Inr (0, 0)
         else then_ok (py_max (sent data)) (\<lambda>peak_sent.
              then_ok (py_max (received data)) (\<lambda>peak_received.
                Inr (peak_sent, peak_received))))"

text \<open>
  \<^verbatim>\<open>get_bandwidth_trend\<close> returns the dict \<^verbatim>\<open>{"trend": ..., "slope": ...}\<close>, here a pair.
  \<^verbatim>\<open>np.polyfit(x, y, 1)[0]\<close> is numpy's, computed in double precision: \<open>polyfit\<close> stands
  for it, and the slope has any type with a zero and a comparison.
\<close>

definition get_bandwidth_trend ::
    "(int list \<Rightarrow> int list \<Rightarrow> 'f) \<Rightarrow> network_monitor \<Rightarrow> string \<Rightarrow> string \<times> ('f::{zero,ord})" where
  "get_bandwidth_trend polyfit s ip =
     (let data = window_get (bandwidth_data s) ip
      in if length (sent data) < 2 then (''insufficient_data'', 0)
         else
           let sent_data = sent data;
               x = map int [0 ..< length sent_data]
           in if 1 < length x
              then let slope = polyfit x sent_data
                   in if 0 < slope then (''increasing'', slope)
                      else if slope < 0 then (''decreasing'', slope)
                      else (''stable'', slope)
              else (''stable'', 0))"

section \<open>SecurityAlertSystem\<close>

text \<open>\<^verbatim>\<open>str(n)\<close> for an int, as an f-string formats it.\<close>

definition digit_char :: "nat \<Rightarrow> char" where
  "digit_char d = ''0123456789'' ! d"

function str_nat :: "nat \<Rightarrow> string" where
  "str_nat n =
     (if n < 10 then [digit_char n]
      else str_nat (n div 10) @ [digit_char (n mod 10)])"
  by pat_completeness auto
termination
proof (relation "measure (\<lambda>n. n)")
  show "wf (measure (\<lambda>n. n))" by simp
next
  fix n :: nat
  assume "\<not> n < 10"
  then have "n div 10 < n" by simp
  then show "(n div 10, n) \<in> measure (\<lambda>n. n)" by simp
qed

declare str_nat.simps [simp del]

definition str_int :: "int \<Rightarrow> string" where
  "str_int i = (if i < 0 then CHR ''-'' # str_nat (nat (- i)) else str_nat (nat i))"

text \<open>The dict that \<^verbatim>\<open>create_alert\<close> builds.\<close>

record alert =
  a_timestamp :: nat
  a_ip_address :: string
  a_type :: string
  a_message :: string
  a_severity :: string

text \<open>The dict \<^verbatim>\<open>alert_thresholds\<close>, by key.\<close>

record thresholds =
  high_bandwidth :: int
  suspicious_packets :: int
  rapid_connections :: int

text \<open>
  The fields of \<^verbatim>\<open>SecurityAlertSystem\<close>: \<open>alerts\<close> is a \<^verbatim>\<open>deque(maxlen=100)\<close>,
  \<open>alert_logging\<close> the records the class writes through the \<^verbatim>\<open>logging\<close> module. The
  monitor it reads is passed to its methods.
\<close>

record alert_system =
  alert_thresholds :: thresholds
  alerts :: "alert list"
  alert_logging :: "(level \<times> string) list"

definition init_alert_system :: alert_system where
  "init_alert_system =
     \<lparr>alert_thresholds =
        \<lparr>high_bandwidth = 1024 * 1024, suspicious_packets = 1000, rapid_connections = 50\<rparr>,
      alerts = [], alert_logging = []\<rparr>"

definition get_alert_severity :: "string \<Rightarrow> string" where
  "get_alert_severity alert_type =
     (case map_of [(''HIGH_BANDWIDTH_OUT'', ''MEDIUM''), (''HIGH_BANDWIDTH_IN'', ''MEDIUM''),
                   (''SUSPICIOUS_PACKETS'', ''HIGH''), (''RAPID_CONNECTIONS'', ''HIGH'')] alert_type of
        None \<Rightarrow> ''LOW''
      | Some severity \<Rightarrow> severity)"

text \<open>
  \<^verbatim>\<open>create_alert\<close>. \<^verbatim>\<open>datetime.now()\<close> is an input: \<open>now ip ty\<close> is the clock reading
  when the alert of kind \<open>ty\<close> for \<open>ip\<close> is created (one evaluation creates at most one
  alert for each target and kind).
\<close>

definition create_alert ::
    "(string \<Rightarrow> string \<Rightarrow> nat) \<Rightarrow> alert_system \<Rightarrow> string \<Rightarrow> string \<Rightarrow> string \<Rightarrow> alert_system" where
  "create_alert now sys ip_address alert_type message =
     (let alert = \<lparr>a_timestamp = now ip_address alert_type, a_ip_address = ip_address,
                    a_type = alert_type, a_message = message,
                    a_severity = get_alert_severity alert_type\<rparr>
      in sys\<lparr>alerts := deque_append 100 (alerts sys) alert,
             alert_logging := alert_logging sys @
               [(WARNING, ''SECURITY ALERT - '' @ alert_type @ '': '' @ message
                          @ '' for IP '' @ ip_address)]\<rparr>)"

text \<open>\<^verbatim>\<open>xs and max(xs) > threshold\<close>: \<^verbatim>\<open>max\<close> is not called on an empty deque.\<close>

definition exceeds :: "int list \<Rightarrow> int \<Rightarrow> py_error + bool" where
  "exceeds xs threshold =
     (if xs = [] then Inr False else then_ok (py_max xs) (\<lambda>m. Inr (threshold < m)))"

text \<open>One of the three \<^verbatim>\<open>if\<close> statements of the loop body: the test, then the alert.\<close>

definition alert_if_exceeds ::
    "(string \<Rightarrow> string \<Rightarrow> nat) \<Rightarrow> alert_system \<Rightarrow> string \<Rightarrow> int list \<Rightarrow> int \<Rightarrow> string \<Rightarrow>
     string \<Rightarrow> string \<Rightarrow> py_error + alert_system" where
  "alert_if_exceeds now sys ip xs threshold alert_type before after =
     then_ok (exceeds xs threshold) (\<lambda>high.
       if high
       then then_ok (py_max xs) (\<lambda>m.
              Inr (create_alert now sys ip alert_type (before @ str_int m @ after)))
       else Inr sys)"

text \<open>The body of the loop of \<^verbatim>\<open>check_for_anomalies\<close> for one target.\<close>

definition check_ip ::
    "(string \<Rightarrow> string \<Rightarrow> nat) \<Rightarrow> network_monitor \<Rightarrow> alert_system \<Rightarrow> string
     \<Rightarrow> py_error + alert_system" where
  "check_ip now mon sys ip =
     (let bandwidth = window_get (bandwidth_data mon) ip;
          packet = window_get (packet_data mon) ip
      in then_ok (alert_if_exceeds now sys ip (sent bandwidth)
                    (high_bandwidth (alert_thresholds sys)) ''HIGH_BANDWIDTH_OUT''
                    ''High outbound bandwidth detected: '' '' bytes'') (\<lambda>sys1.
         then_ok (alert_if_exceeds now sys1 ip (received bandwidth)
                    (high_bandwidth (alert_thresholds sys1)) ''HIGH_BANDWIDTH_IN''
                    ''High inbound bandwidth detected: '' '' bytes'') (\<lambda>sys2.
         alert_if_exceeds now sys2 ip (sent packet)
                    (suspicious_packets (alert_thresholds sys2)) ''SUSPICIOUS_PACKETS''
                    ''High packet count detected: '' '' packets'')))"

text \<open>
  \<^verbatim>\<open>check_for_anomalies\<close>: the loop over \<^verbatim>\<open>monitored_ips\<close>. A Python set is iterated in
  an order of its own; \<open>order\<close> is that order, a listing of the set without repetition.
\<close>

fun check_for_anomalies ::
    "(string \<Rightarrow> string \<Rightarrow> nat) \<Rightarrow> network_monitor \<Rightarrow> alert_system \<Rightarrow> string list
     \<Rightarrow> py_error + alert_system" where
  "check_for_anomalies now mon sys [] = Inr sys"
| "check_for_anomalies now mon sys (ip # order) =
     then_ok (check_ip now mon sys ip) (\<lambda>sys'. check_for_anomalies now mon sys' order)"

definition listing :: "'a list \<Rightarrow> 'a set \<Rightarrow> bool" where
  "listing order A = (distinct order \<and> set order = A)"

text \<open>The log record of an alert, and the alerts of one kind for one target.\<close>

definition alert_warning :: "alert \<Rightarrow> level \<times> string" where
  "alert_warning a =
     (WARNING, ''SECURITY ALERT - '' @ a_type a @ '': '' @ a_message a @ '' for IP '' @ a_ip_address a)"

definition alerts_of :: "string \<Rightarrow> string \<Rightarrow> alert list \<Rightarrow> alert list" where
  "alerts_of ip ty as = filter (\<lambda>a. a_ip_address a = ip \<and> a_type a = ty) as"

text \<open>
  The scenario of the alert test: one registered target whose window holds the sample
  2000000, and the outbound threshold set to 1000000.
\<close>

definition loud_monitor :: network_monitor where
  "loud_monitor =
     store_sample (init_monitor\<lparr>monitored_ips := {''10.0.0.1''}\<rparr>) ''10.0.0.1''
       \<lparr>bytes_sent = 2000000, bytes_received = 4096, packets_sent = 20, packets_received = 30\<rparr>"

definition strict_alert_system :: alert_system where
  "strict_alert_system =
     init_alert_system\<lparr>alert_thresholds :=
       (alert_thresholds init_alert_system)\<lparr>high_bandwidth := 1000000\<rparr>\<rparr>"

section \<open>DatabaseManager and the monitoring loop\<close>

text \<open>
  The calls on \<^verbatim>\<open>sqlite3\<close> can raise. Which one does, and with which message, is an input:
  the fault of one write. A call returns \<open>Inl m\<close> when it raises an exception with text
  \<open>m\<close> (every exception of \<^verbatim>\<open>sqlite3\<close> is an \<^verbatim>\<open>Exception\<close>).
\<close>

datatype db_fault =
  No_fault | Connect_fails string | Execute_fails string | Commit_fails string | Close_fails string

definition sqlite_connect :: "db_fault \<Rightarrow> string + unit" where
  "sqlite_connect f = (case f of Connect_fails m \<Rightarrow> Inl m | _ \<Rightarrow> Inr ())"

definition sqlite_execute :: "db_fault \<Rightarrow> string + unit" where
  "sqlite_execute f = (case f of Execute_fails m \<Rightarrow> Inl m | _ \<Rightarrow> Inr ())"

definition sqlite_commit :: "db_fault \<Rightarrow> string + unit" where
  "sqlite_commit f = (case f of Commit_fails m \<Rightarrow> Inl m | _ \<Rightarrow> Inr ())"

definition sqlite_close :: "db_fault \<Rightarrow> string + unit" where
  "sqlite_close f = (case f of Close_fails m \<Rightarrow> Inl m | _ \<Rightarrow> Inr ())"

text \<open>
  \<^verbatim>\<open>add_bandwidth_log\<close>: the row is in the table once \<^verbatim>\<open>commit\<close> has returned; the
  \<^verbatim>\<open>except Exception\<close> clause logs whatever the four calls raise. The result is \<open>Inl m\<close>
  when an exception leaves the function.
\<close>

definition add_bandwidth_log ::
    "db_fault \<Rightarrow> network_monitor \<Rightarrow> bandwidth_log \<Rightarrow> string + network_monitor" where
  "add_bandwidth_log fault s row =
     (case then_ok (sqlite_connect fault) (\<lambda>conn.
           then_ok (sqlite_execute fault) (\<lambda>cursor. sqlite_commit fault)) of
        Inl e \<Rightarrow> Inr (s\<lparr>logging := logging s @ [(ERROR, ''Error adding bandwidth log: '' @ e)]\<rparr>)
      | Inr ok \<Rightarrow>
          (let s' = s\<lparr>db := db s @ [row]\<rparr>
           in case sqlite_close fault of
                Inl e \<Rightarrow> Inr (s'\<lparr>logging := logging s' @ [(ERROR, ''Error adding bandwidth log: '' @ e)]\<rparr>)
              | Inr ok' \<Rightarrow> Inr s'))"

text \<open>
  The inputs of one step of the loop: the order in which the copied set is iterated, the
  simulated traffic, the fault of the database write and the clock reading.
\<close>

record tick =
  tick_order :: "string list"
  tick_traffic :: traffic
  tick_fault :: db_fault
  tick_stamp :: nat

text \<open>The body of the \<^verbatim>\<open>for\<close> loop of \<^verbatim>\<open>_monitor_loop\<close> for one target.\<close>

definition loop_body :: "tick \<Rightarrow> network_monitor \<Rightarrow> string \<Rightarrow> string + network_monitor" where
  "loop_body e s ip =
     (let t = tick_traffic e;
          s1 = store_sample s ip t
      in then_ok (add_bandwidth_log (tick_fault e) s1
                    \<lparr>log_ip_address = ip, log_bytes_sent = bytes_sent t,
                     log_bytes_received = bytes_received t, log_packets_sent = packets_sent t,
                     log_packets_received = packets_received t,
                     log_connection_type = ''ethernet''\<rparr>) (\<lambda>s2.
           Inr (s2\<lparr>data_queue := data_queue s2 @
                  [\<lparr>q_ip = ip, q_bytes_sent = bytes_sent t, q_bytes_received = bytes_received t,
                    q_packets_sent = packets_sent t, q_packets_received = packets_received t,
                    q_timestamp = tick_stamp e\<rparr>]\<rparr>)))"

text \<open>
  One step of the thread that runs \<^verbatim>\<open>_monitor_loop\<close>: the test of the \<^verbatim>\<open>while\<close>, the body
  for the next target, or the \<^verbatim>\<open>sleep\<close> that ends a pass. An exception inside the pass
  is logged by the \<^verbatim>\<open>except\<close> clause of the loop, which then returns to the test; the
  appends made before it stay.
\<close>

fun worker_step :: "tick \<Rightarrow> worker \<Rightarrow> network_monitor \<Rightarrow> worker \<times> network_monitor" where
  "worker_step e At_while s =
     (if monitoring s then (In_for (tick_order e), s) else (Finished, s))"
| "worker_step e (In_for []) s = (At_while, s)"
| "worker_step e (In_for (ip # rest)) s =
     (case loop_body e s ip of
        Inr s' \<Rightarrow> (In_for rest, s')
      | Inl m \<Rightarrow>
          (At_while, (store_sample s ip (tick_traffic e))
             \<lparr>logging := logging s @ [(ERROR, ''Error in monitoring loop: '' @ m)]\<rparr>))"
| "worker_step e Finished s = (Finished, s)"

definition start_monitoring :: "network_monitor \<Rightarrow> network_monitor" where
  "start_monitoring s =
     s\<lparr>monitoring := True, threads := threads s @ [At_while],
       logging := logging s @ [(INFO, ''Network monitoring started'')]\<rparr>"

definition stop_monitoring :: "network_monitor \<Rightarrow> network_monitor" where
  "stop_monitoring s =
     s\<lparr>monitoring := False, logging := logging s @ [(INFO, ''Network monitoring stopped'')]\<rparr>"

section \<open>CyberSecurityMonitorGUI\<close>

text \<open>One list of the exported JSON object, per target.\<close>

record export_entry =
  bandwidth_sent :: "int list"
  bandwidth_received :: "int list"
  x_packets_sent :: "int list"
  x_packets_received :: "int list"

text \<open>
  The part of the GUI the operations below touch. The widgets are tkinter's: the model
  keeps the values set on them (\<open>status_var\<close>, the text of \<open>monitor_btn\<close>, the colour of
  \<open>connection_indicator\<close>) and the calls made (\<open>dialogs\<close>: the message boxes shown, with
  kind, title and text; \<open>log_messages\<close>: the arguments of \<^verbatim>\<open>log_message\<close>). \<open>files\<close> are
  the files written, each with the object given to \<^verbatim>\<open>json.dump\<close>, keys in insertion
  order.
\<close>

record gui =
  monitor :: network_monitor
  monitoring_active :: bool
  status_var :: string
  monitor_btn :: string
  connection_indicator :: string
  dialogs :: "(string \<times> string \<times> string) list"
  log_messages :: "string list"
  files :: "(string \<times> (string \<times> export_entry) list) list"

definition init_gui :: gui where
  "init_gui =
     \<lparr>monitor = init_monitor, monitoring_active = False, status_var = ''Ready'',
      monitor_btn = ''Start Monitoring'', connection_indicator = ''red'', dialogs = [],
      log_messages = [], files = []\<rparr>"

definition toggle_monitoring :: "gui \<Rightarrow> gui" where
  "toggle_monitoring g =
     (if \<not> monitoring_active g
      then if monitored_ips (monitor g) = {}
           then g\<lparr>dialogs := dialogs g @
                    [(''showwarning'', ''Warning'', ''Please add at least one IP address to monitor'')]\<rparr>
           else g\<lparr>monitor := start_monitoring (monitor g), monitoring_active := True,
                  monitor_btn := ''Stop Monitoring'', connection_indicator := ''green'',
                  status_var := ''Monitoring active'',
                  log_messages := log_messages g @ [''Network monitoring started'']\<rparr>
      else g\<lparr>monitor := stop_monitoring (monitor g), monitoring_active := False,
             monitor_btn := ''Start Monitoring'', connection_indicator := ''red'',
             status_var := ''Monitoring stopped'',
             log_messages := log_messages g @ [''Network monitoring stopped'']\<rparr>)"

text \<open>\<^verbatim>\<open>d[ip]\<close> on a defaultdict, read only: a missing key gets a new window.\<close>

definition touch :: "(string \<rightharpoonup> window) \<Rightarrow> string \<Rightarrow> (string \<rightharpoonup> window)" where
  "touch d ip = (case d ip of None \<Rightarrow> d(ip \<mapsto> new_window) | Some w \<Rightarrow> d)"

text \<open>
  The loop of \<^verbatim>\<open>export_data\<close> that fills the dict \<^verbatim>\<open>export_data\<close>, over the targets in
  iteration order; \<open>acc\<close> is the dict so far (no key repeats, so each assignment adds
  one at the end).
\<close>

fun export_rows ::
    "network_monitor \<Rightarrow> (string \<times> export_entry) list \<Rightarrow> string list
     \<Rightarrow> network_monitor \<times> (string \<times> export_entry) list" where
  "export_rows s acc [] = (s, acc)"
| "export_rows s acc (ip # order) =
     (let s' = s\<lparr>bandwidth_data := touch (bandwidth_data s) ip,
                 packet_data := touch (packet_data s) ip\<rparr>;
          entry = \<lparr>bandwidth_sent = sent (window_get (bandwidth_data s') ip),
                   bandwidth_received = received (window_get (bandwidth_data s') ip),
                   x_packets_sent = sent (window_get (packet_data s') ip),
                   x_packets_received = received (window_get (packet_data s') ip)\<rparr>
      in export_rows s' (acc @ [(ip, entry)]) order)"

text \<open>
  \<^verbatim>\<open>export_data\<close>. Inputs: the iteration order of the set, the formatted time of the file
  name, and what the file system does with the write (\<open>Some m\<close>: \<^verbatim>\<open>open\<close> or \<^verbatim>\<open>json.dump\<close>
  raises an exception with text \<open>m\<close>).
\<close>

definition export_data :: "string list \<Rightarrow> string \<Rightarrow> string option \<Rightarrow> gui \<Rightarrow> gui" where
  "export_data order stamp io g =
     (let (s', rows) = export_rows (monitor g) [] order;
          filename = ''bandwidth_data_'' @ stamp @ ''.json''
      in case io of
           None \<Rightarrow>
             g\<lparr>monitor := s', files := files g @ [(filename, rows)],
               dialogs := dialogs g @ [(''showinfo'', ''Success'', ''Data exported to '' @ filename)],
               status_var := ''Data exported to '' @ filename,
               log_messages := log_messages g @ [''Data exported to '' @ filename]\<rparr>
         | Some m \<Rightarrow>
             g\<lparr>monitor := s',
               dialogs := dialogs g @ [(''showerror'', ''Error'', ''Failed to export data: '' @ m)],
               log_messages := log_messages g @ [''Error exporting data: '' @ m]\<rparr>)"

section \<open>The GUI thread and the monitoring threads, interleaved\<close>

text \<open>
  An event is a click on the monitoring button or one step of the thread with the given
  index; a run is a list of events.
\<close>

datatype event = Toggle | Step nat tick

fun fire :: "event \<Rightarrow> gui \<Rightarrow> gui" where
  "fire Toggle g = toggle_monitoring g"
| "fire (Step i e) g =
     (if i < length (threads (monitor g))
      then let (w', s') = worker_step e (threads (monitor g) ! i) (monitor g)
           in g\<lparr>monitor := s'\<lparr>threads := (threads s')[i := w']\<rparr>\<rparr>
      else g)"

fun run :: "event list \<Rightarrow> gui \<Rightarrow> gui" where
  "run [] g = g"
| "run (ev # evs) g = run evs (fire ev g)"

fun is_step :: "event \<Rightarrow> bool" where
  "is_step Toggle = False"
| "is_step (Step i e) = True"

text \<open>
  The stop has completed: the flag is cleared and no thread is inside a pass (each one
  is about to test the flag, or has returned).
\<close>

fun outside_pass :: "worker \<Rightarrow> bool" where
  "outside_pass (In_for rest) = False"
| "outside_pass w = True"

definition stopped :: "gui \<Rightarrow> bool" where
  "stopped g = (\<not> monitoring (monitor g) \<and> list_all outside_pass (threads (monitor g)))"

text \<open>What the sampling loop appends to: the windows, the table and the queue.\<close>

definition samples :: "gui \<Rightarrow> (string \<rightharpoonup> window) \<times> (string \<rightharpoonup> window) \<times> bandwidth_log list \<times> queue_item list" where
  "samples g = (bandwidth_data (monitor g), packet_data (monitor g), db (monitor g), data_queue (monitor g))"

section \<open>Auxiliary notions for the statements\<close>

text \<open>
  A run of the sampler: the samples stored one after the other, each for its target.
\<close>

fun store_all :: "network_monitor \<Rightarrow> (string \<times> traffic) list \<Rightarrow> network_monitor" where
  "store_all s [] = s"
| "store_all s ((ip, t) # evs) = store_all (store_sample s ip t) evs"

text \<open>The last \<open>n\<close> elements of a list, in their order.\<close>

definition last_n :: "nat \<Rightarrow> 'a list \<Rightarrow> 'a list" where
  "last_n n xs = drop (length xs - n) xs"

text \<open>The samples of a run that belong to one target, and the most recent \<open>MAXLEN\<close> of them.\<close>

definition samples_of :: "string \<Rightarrow> (string \<times> traffic) list \<Rightarrow> traffic list" where
  "samples_of ip evs = map snd (filter (\<lambda>e. fst e = ip) evs)"

definition most_recent :: "string \<Rightarrow> (string \<times> traffic) list \<Rightarrow> traffic list" where
  "most_recent ip evs = last_n MAXLEN (samples_of ip evs)"

text \<open>Every deque of the two maps respects its \<^verbatim>\<open>maxlen\<close>.\<close>

definition window_bounded :: "window \<Rightarrow> bool" where
  "window_bounded w = (length (sent w) \<le> MAXLEN \<and> length (received w) \<le> MAXLEN)"

definition windows_bounded :: "network_monitor \<Rightarrow> bool" where
  "windows_bounded s =
     (\<forall>ip. window_bounded (window_get (bandwidth_data s) ip)
          \<and> window_bounded (window_get (packet_data s) ip))"

text \<open>A run of 101 samples for one target, with sent bytes 0, 1, ..., 100.\<close>

definition ramp :: "(string \<times> traffic) list" where
  "ramp = map (\<lambda>i. (''10.0.0.1'',
      \<lparr>bytes_sent = int i, bytes_received = 2 * int i, packets_sent = 1, packets_received = 1\<rparr>))
    [0 ..< 101]"

text \<open>
  A sample acceptance set for the examples: dotted quads of four decimal octets
  0..255 without leading zeros. \<open>split_on\<close> is \<^verbatim>\<open>str.split(c)\<close>.
\<close>

fun split_on :: "char \<Rightarrow> string \<Rightarrow> string list" where
  "split_on c [] = [[]]"
| "split_on c (x # xs) =
     (if x = c then [] # split_on c xs
      else (case split_on c xs of [] \<Rightarrow> [[x]] | y # ys \<Rightarrow> (x # y) # ys))"

definition is_digit :: "char \<Rightarrow> bool" where
  "is_digit c = (48 \<le> (of_char c :: nat) \<and> (of_char c :: nat) \<le> 57)"

definition decimal :: "string \<Rightarrow> nat" where
  "decimal s = foldl (\<lambda>n c. 10 * n + (of_char c - 48)) 0 s"

definition octet_ok :: "string \<Rightarrow> bool" where
  "octet_ok s =
     (s \<noteq> [] \<and> length s \<le> 3 \<and> list_all is_digit s
      \<and> (length s = 1 \<or> hd s \<noteq> CHR ''0'') \<and> decimal s \<le> 255)"

definition dotted_quad :: "string \<Rightarrow> bool" where
  "dotted_quad s = (let parts = split_on CHR ''.'' s in length parts = 4 \<and> list_all octet_ok parts)"

text \<open>
  The alert that one \<^verbatim>\<open>if\<close> statement of the loop body creates, as a list of at most
  one alert; the alerts of one target; a system with a list of alerts created.
\<close>

definition raised :: "(string \<Rightarrow> string \<Rightarrow> nat) \<Rightarrow> string \<Rightarrow> int list \<Rightarrow> int \<Rightarrow> string \<Rightarrow> string \<Rightarrow> string
    \<Rightarrow> alert list" where
  "raised now ip xs thr ty before after =
     (if xs \<noteq> [] \<and> thr < Max (set xs)
      then [\<lparr>a_timestamp = now ip ty, a_ip_address = ip, a_type = ty,
             a_message = before @ str_int (Max (set xs)) @ after,
             a_severity = get_alert_severity ty\<rparr>]
      else [])"

definition with_alerts :: "alert_system \<Rightarrow> alert list \<Rightarrow> alert_system" where
  "with_alerts sys new =
     sys\<lparr>alerts := foldl (deque_append 100) (alerts sys) new,
         alert_logging := alert_logging sys @ map alert_warning new\<rparr>"

definition produced :: "(string \<Rightarrow> string \<Rightarrow> nat) \<Rightarrow> network_monitor \<Rightarrow> thresholds \<Rightarrow> string
    \<Rightarrow> alert list" where
  "produced now mon thr ip =
     raised now ip (sent (window_get (bandwidth_data mon) ip)) (high_bandwidth thr)
       ''HIGH_BANDWIDTH_OUT'' ''High outbound bandwidth detected: '' '' bytes''
     @ raised now ip (received (window_get (bandwidth_data mon) ip)) (high_bandwidth thr)
       ''HIGH_BANDWIDTH_IN'' ''High inbound bandwidth detected: '' '' bytes''
     @ raised now ip (sent (window_get (packet_data mon) ip)) (suspicious_packets thr)
       ''SUSPICIOUS_PACKETS'' ''High packet count detected: '' '' packets''"

text \<open>The targets a thread has still to visit in its pass.\<close>

fun pending :: "worker \<Rightarrow> string list" where
  "pending (In_for rest) = rest"
| "pending w = []"

text \<open>The steps a thread needs to return once the flag is cleared.\<close>

fun remaining :: "worker \<Rightarrow> nat" where
  "remaining Finished = 0"
| "remaining At_while = 1"
| "remaining (In_for rest) = length rest + 2"

text \<open>
  A run for the examples: two registered targets; the button is clicked, the thread
  starts a pass and samples the first target, and the button is clicked again.
\<close>

definition two_targets :: gui where
  "two_targets = init_gui\<lparr>monitor := init_monitor\<lparr>monitored_ips := {''10.0.0.1'', ''10.0.0.2''}\<rparr>\<rparr>"

definition sample_tick :: tick where
  "sample_tick =
     \<lparr>tick_order = [''10.0.0.1'', ''10.0.0.2''],
      tick_traffic = \<lparr>bytes_sent = 5000, bytes_received = 7000, packets_sent = 20, packets_received = 30\<rparr>,
      tick_fault = No_fault, tick_stamp = 1\<rparr>"

definition stop_in_pass :: "event list" where
  "stop_in_pass = [Toggle, Step 0 sample_tick, Step 0 sample_tick, Toggle]"

text \<open>The message of the exception a fault raises, and whether the row was committed.\<close>

definition fault_text :: "db_fault \<Rightarrow> string option" where
  "fault_text f =
     (case f of No_fault \<Rightarrow> None | Connect_fails m \<Rightarrow> Some m | Execute_fails m \<Rightarrow> Some m
      | Commit_fails m \<Rightarrow> Some m | Close_fails m \<Rightarrow> Some m)"

definition committed :: "db_fault \<Rightarrow> bool" where
  "committed f = (case f of No_fault \<Rightarrow> True | Close_fails m \<Rightarrow> True | _ \<Rightarrow> False)"

definition log_row :: "string \<Rightarrow> traffic \<Rightarrow> bandwidth_log" where
  "log_row ip t =
     \<lparr>log_ip_address = ip, log_bytes_sent = bytes_sent t, log_bytes_received = bytes_received t,
      log_packets_sent = packets_sent t, log_packets_received = packets_received t,
      log_connection_type = ''ethernet''\<rparr>"

definition queue_entry :: "string \<Rightarrow> traffic \<Rightarrow> nat \<Rightarrow> queue_item" where
  "queue_entry ip t stamp =
     \<lparr>q_ip = ip, q_bytes_sent = bytes_sent t, q_bytes_received = bytes_received t,
      q_packets_sent = packets_sent t, q_packets_received = packets_received t,
      q_timestamp = stamp\<rparr>"

text \<open>
  The slope of the least-squares line through the points \<open>(x\<^sub>i, y\<^sub>i)\<close>, in exact
  arithmetic. \<^verbatim>\<open>np.polyfit(x, y, 1)[0]\<close> computes it in double precision.
\<close>

definition lsq_slope :: "int list \<Rightarrow> int list \<Rightarrow> rat" where
  "lsq_slope xs ys =
     (let n = of_nat (length xs);
          sx = of_int (sum_list xs);
          sy = of_int (sum_list ys);
          sxy = of_int (sum_list (map2 (*) xs ys));
          sxx = of_int (sum_list (map2 (*) xs xs))
      in (n * sxy - sx * sy) / (n * sxx - sx * sx))"

text \<open>
  The indices \<^verbatim>\<open>list(range(n))\<close>, and the numerator of the slope of a series against its
  indices (the denominator is the numerator of the indices against themselves).
\<close>

definition indices :: "nat \<Rightarrow> int list" where
  "indices n = map int [0 ..< n]"

definition cross :: "int list \<Rightarrow> int" where
  "cross ys =
     int (length ys) * sum_list (map2 (*) (indices (length ys)) ys)
       - sum_list (indices (length ys)) * sum_list ys"

text \<open>A monitor after four samples with the same sent bytes for one target.\<close>

definition flat_sample :: "string \<times> traffic" where
  "flat_sample =
     (''10.0.0.1'',
      \<lparr>bytes_sent = 5000, bytes_received = 7000, packets_sent = 20, packets_received = 30\<rparr>)"

definition flat_monitor :: network_monitor where
  "flat_monitor = store_all init_monitor [flat_sample, flat_sample, flat_sample, flat_sample]"

text \<open>
  Sums for the proofs: the index-weighted sum of a series, and what the numerator gains
  when a value \<open>y\<close> is appended to a series.
\<close>

definition weighted :: "int list \<Rightarrow> int" where
  "weighted ys = sum_list (map2 (*) (indices (length ys)) ys)"

definition gain :: "int \<Rightarrow> int list \<Rightarrow> int \<Rightarrow> int" where
  "gain m ys y = sum_list (map2 (\<lambda>i v. (m - i) * (y - v)) (indices (length ys)) ys)"

section \<open>Bounded windows\<close>

lemma deque_append_last_n:
  "deque_append m xs v = last_n m (xs @ [v])" if "length xs \<le> m"
proof (cases "length xs = m")
  case True
  have "tl (xs @ [v]) = drop 1 (xs @ [v])"
    by (cases xs) simp_all
  with True show ?thesis
    by (simp add: deque_append_def last_n_def del: drop_append)
next
  case False
  with that show ?thesis
    by (simp add: deque_append_def last_n_def)
qed

lemma last_n_absorb: "last_n m (last_n m xs @ ys) = last_n m (xs @ ys)"
proof (cases "m \<le> length xs")
  case True
  then have "length xs + length ys - m = (length xs - m) + length ys"
    by simp
  with True show ?thesis
    by (simp add: last_n_def add.commute)
next
  case False
  then show ?thesis
    by (simp add: last_n_def)
qed

lemma length_last_n: "length (last_n m xs) = min m (length xs)"
  by (auto simp: last_n_def)

lemma map_last_n: "map f (last_n m xs) = last_n m (map f xs)"
  by (simp add: last_n_def drop_map)

lemma last_n_append_long: "m \<le> length ys \<Longrightarrow> last_n m (xs @ ys) = last_n m ys"
  by (auto simp: last_n_def)

lemma window_get_append_sent:
  "window_get (append_sent d ip v) ip' =
     (if ip' = ip then (window_get d ip)\<lparr>sent := deque_append MAXLEN (sent (window_get d ip)) v\<rparr>
      else window_get d ip')"
  by (simp add: window_get_def append_sent_def new_window_def split: option.splits)

lemma window_get_append_received:
  "window_get (append_received d ip v) ip' =
     (if ip' = ip then (window_get d ip)\<lparr>received := deque_append MAXLEN (received (window_get d ip)) v\<rparr>
      else window_get d ip')"
  by (simp add: window_get_def append_received_def new_window_def split: option.splits)

lemma py_max_Max: "xs \<noteq> [] \<Longrightarrow> py_max xs = Inr (Max (set xs))"
  by (cases xs) (simp_all add: py_max_def Max.set_eq_fold del: set_simps)


lemma length_deque_append: "length xs \<le> m \<Longrightarrow> length (deque_append m xs v) \<le> m"
  by (simp add: deque_append_last_n length_last_n)

lemma last_n_short: "length xs \<le> m \<Longrightarrow> last_n m xs = xs"
  by (simp add: last_n_def)

lemma bandwidth_store_sample:
  "window_get (bandwidth_data (store_sample s ip t)) ip' =
     (if ip' = ip
      then \<lparr>sent = deque_append MAXLEN (sent (window_get (bandwidth_data s) ip)) (bytes_sent t),
            received = deque_append MAXLEN (received (window_get (bandwidth_data s) ip)) (bytes_received t)\<rparr>
      else window_get (bandwidth_data s) ip')"
  by (simp add: store_sample_def window_get_append_sent window_get_append_received)

lemma packet_store_sample:
  "window_get (packet_data (store_sample s ip t)) ip' =
     (if ip' = ip
      then \<lparr>sent = deque_append MAXLEN (sent (window_get (packet_data s) ip)) (packets_sent t),
            received = deque_append MAXLEN (received (window_get (packet_data s) ip)) (packets_received t)\<rparr>
      else window_get (packet_data s) ip')"
  by (simp add: store_sample_def window_get_append_sent window_get_append_received)

lemma store_sample_bounded:
  "windows_bounded s \<Longrightarrow> windows_bounded (store_sample s ip t)"
  by (simp add: windows_bounded_def window_bounded_def bandwidth_store_sample
        packet_store_sample length_deque_append)

lemma store_all_bounded:
  "windows_bounded s \<Longrightarrow> windows_bounded (store_all s evs)"
  by (induction s evs rule: store_all.induct) (simp_all add: store_sample_bounded)

lemma bandwidth_store_all:
  assumes "windows_bounded s"
  shows "window_get (bandwidth_data (store_all s evs)) ip =
     \<lparr>sent = last_n MAXLEN (sent (window_get (bandwidth_data s) ip) @ map bytes_sent (samples_of ip evs)),
      received = last_n MAXLEN (received (window_get (bandwidth_data s) ip)
                   @ map bytes_received (samples_of ip evs))\<rparr>"
  using assms
proof (induction s evs rule: store_all.induct)
  case (1 s)
  then have "window_bounded (window_get (bandwidth_data s) ip)"
    by (simp add: windows_bounded_def)
  then show ?case
    by (simp add: samples_of_def window_bounded_def last_n_short)
next
  case (2 s ip' t evs)
  have b: "window_bounded (window_get (bandwidth_data s) ip')"
    using "2.prems" by (simp add: windows_bounded_def)
  have "windows_bounded (store_sample s ip' t)"
    using "2.prems" by (rule store_sample_bounded)
  then have ih: "window_get (bandwidth_data (store_all (store_sample s ip' t) evs)) ip =
     \<lparr>sent = last_n MAXLEN (sent (window_get (bandwidth_data (store_sample s ip' t)) ip)
               @ map bytes_sent (samples_of ip evs)),
      received = last_n MAXLEN (received (window_get (bandwidth_data (store_sample s ip' t)) ip)
               @ map bytes_received (samples_of ip evs))\<rparr>"
    by (rule "2.IH")
  show ?case
  proof (cases "ip = ip'")
    case True
    with b ih show ?thesis
      by (simp add: bandwidth_store_sample samples_of_def window_bounded_def
            deque_append_last_n last_n_absorb)
  next
    case False
    with ih show ?thesis
      by (simp add: bandwidth_store_sample samples_of_def)
  qed
qed

lemma packet_store_all:
  assumes "windows_bounded s"
  shows "window_get (packet_data (store_all s evs)) ip =
     \<lparr>sent = last_n MAXLEN (sent (window_get (packet_data s) ip) @ map packets_sent (samples_of ip evs)),
      received = last_n MAXLEN (received (window_get (packet_data s) ip)
                   @ map packets_received (samples_of ip evs))\<rparr>"
  using assms
proof (induction s evs rule: store_all.induct)
  case (1 s)
  then have "window_bounded (window_get (packet_data s) ip)"
    by (simp add: windows_bounded_def)
  then show ?case
    by (simp add: samples_of_def window_bounded_def last_n_short)
next
  case (2 s ip' t evs)
  have b: "window_bounded (window_get (packet_data s) ip')"
    using "2.prems" by (simp add: windows_bounded_def)
  have "windows_bounded (store_sample s ip' t)"
    using "2.prems" by (rule store_sample_bounded)
  then have ih: "window_get (packet_data (store_all (store_sample s ip' t) evs)) ip =
     \<lparr>sent = last_n MAXLEN (sent (window_get (packet_data (store_sample s ip' t)) ip)
               @ map packets_sent (samples_of ip evs)),
      received = last_n MAXLEN (received (window_get (packet_data (store_sample s ip' t)) ip)
               @ map packets_received (samples_of ip evs))\<rparr>"
    by (rule "2.IH")
  show ?case
  proof (cases "ip = ip'")
    case True
    with b ih show ?thesis
      by (simp add: packet_store_sample samples_of_def window_bounded_def
            deque_append_last_n last_n_absorb)
  next
    case False
    with ih show ?thesis
      by (simp add: packet_store_sample samples_of_def)
  qed
qed


lemma windows_bounded_init: "windows_bounded init_monitor"
  by (simp add: windows_bounded_def window_bounded_def init_monitor_def window_get_def MAXLEN_def)

text \<open>
  C1. From a state whose deques respect their bound, after a run that holds more than
  100 samples for a target (samples of other targets may lie between them), no window
  of any target holds more than 100 entries, the window of the target is exactly the
  most recent 100 of its samples in arrival order, and total, average and peak are those
  of these 100 samples.
\<close>

theorem window_keeps_most_recent:
  assumes "windows_bounded s" and "100 < length (samples_of ip evs)"
  shows "(\<forall>ip'. length (sent (window_get (bandwidth_data (store_all s evs)) ip')) \<le> 100
            \<and> length (received (window_get (bandwidth_data (store_all s evs)) ip')) \<le> 100)
    \<and> length (most_recent ip evs) = 100
    \<and> window_get (bandwidth_data (store_all s evs)) ip =
        \<lparr>sent = map bytes_sent (most_recent ip evs),
         received = map bytes_received (most_recent ip evs)\<rparr>
    \<and> get_total_bandwidth (store_all s evs) ip =
        (sum_list (map bytes_sent (most_recent ip evs)),
         sum_list (map bytes_received (most_recent ip evs)))
    \<and> get_average_bandwidth (store_all s evs) ip =
        Inr (of_int (sum_list (map bytes_sent (most_recent ip evs))) / 100,
             of_int (sum_list (map bytes_received (most_recent ip evs))) / 100)
    \<and> get_peak_bandwidth (store_all s evs) ip =
        Inr (Max (set (map bytes_sent (most_recent ip evs))),
             Max (set (map bytes_received (most_recent ip evs))))"
proof -
  let ?s' = "store_all s evs"
  let ?r = "most_recent ip evs"
  have bounded: "windows_bounded ?s'"
    using assms(1) by (rule store_all_bounded)
  have len: "length ?r = 100"
    using assms(2) by (simp add: most_recent_def length_last_n MAXLEN_def)
  have b0: "window_bounded (window_get (bandwidth_data s) ip)"
    using assms(1) by (simp add: windows_bounded_def)
  have long: "MAXLEN \<le> length (samples_of ip evs)"
    using assms(2) by (simp add: MAXLEN_def)
  have win: "window_get (bandwidth_data ?s') ip =
      \<lparr>sent = map bytes_sent ?r, received = map bytes_received ?r\<rparr>"
    using long by (simp add: bandwidth_store_all [OF assms(1)] most_recent_def
        last_n_append_long map_last_n)
  have ne: "map bytes_sent ?r \<noteq> []" "map bytes_received ?r \<noteq> []"
    using len by auto
  have total: "get_total_bandwidth ?s' ip =
      (sum_list (map bytes_sent ?r), sum_list (map bytes_received ?r))"
    by (simp add: get_total_bandwidth_def win Let_def)
  have avg: "get_average_bandwidth ?s' ip =
      Inr (of_int (sum_list (map bytes_sent ?r)) / 100,
           of_int (sum_list (map bytes_received ?r)) / 100)"
    using len ne by (simp add: get_average_bandwidth_def win then_ok_def py_truediv_def Let_def)
  have peak: "get_peak_bandwidth ?s' ip =
      Inr (Max (set (map bytes_sent ?r)), Max (set (map bytes_received ?r)))"
    using ne by (simp add: get_peak_bandwidth_def win then_ok_def py_max_Max Let_def del: set_map)
  have all: "\<forall>ip'. length (sent (window_get (bandwidth_data ?s') ip')) \<le> 100
            \<and> length (received (window_get (bandwidth_data ?s') ip')) \<le> 100"
    using bounded by (simp add: windows_bounded_def window_bounded_def MAXLEN_def)
  from all len win total avg peak show ?thesis
    by blast
qed

theorem window_keeps_most_recent_witness:
  "windows_bounded init_monitor
   \<and> 100 < length (samples_of ''10.0.0.1'' ramp)
   \<and> get_total_bandwidth (store_all init_monitor ramp) ''10.0.0.1'' = (5050, 10100)
   \<and> get_average_bandwidth (store_all init_monitor ramp) ''10.0.0.1'' = Inr (101 / 2, 101)
   \<and> get_peak_bandwidth (store_all init_monitor ramp) ''10.0.0.1'' = Inr (100, 200)"
proof -
  have h: "100 < length (samples_of ''10.0.0.1'' ramp)"
    by code_simp
  have s: "sum_list (map bytes_sent (most_recent ''10.0.0.1'' ramp)) = 5050"
    by code_simp
  have r: "sum_list (map bytes_received (most_recent ''10.0.0.1'' ramp)) = 10100"
    by code_simp
  have ms: "Max (set (map bytes_sent (most_recent ''10.0.0.1'' ramp))) = 100"
    by code_simp
  have mr: "Max (set (map bytes_received (most_recent ''10.0.0.1'' ramp))) = 200"
    by code_simp
  show ?thesis
    using windows_bounded_init h window_keeps_most_recent [OF windows_bounded_init h]
    by (simp add: s r ms mr del: set_map)
qed

text \<open>
  The bound on the deques is an invariant of the program: it holds at the start, and
  every step of a monitoring thread, every click on the monitoring button and every
  export keeps it.
\<close>

lemma touch_window_get: "window_get (touch d ip) ip' = window_get d ip'"
  by (simp add: touch_def window_get_def new_window_def split: option.splits)

lemma worker_step_bounded:
  assumes "windows_bounded s"
  shows "windows_bounded (snd (worker_step e w s))"
proof (cases w)
  case At_while
  with assms show ?thesis by simp
next
  case (In_for rest)
  show ?thesis
  proof (cases rest)
    case Nil
    with In_for assms show ?thesis by simp
  next
    case (Cons ip rest')
    have "windows_bounded (store_sample s ip (tick_traffic e))"
      using assms by (rule store_sample_bounded)
    then have "windows_bounded (snd (worker_step e (In_for (ip # rest')) s))"
      by (cases "tick_fault e")
         (simp_all add: loop_body_def Let_def then_ok_def add_bandwidth_log_def sqlite_connect_def
            sqlite_execute_def sqlite_commit_def sqlite_close_def windows_bounded_def)
    with In_for Cons show ?thesis by simp
  qed
next
  case Finished
  with assms show ?thesis by simp
qed

lemma fire_bounded:
  assumes "windows_bounded (monitor g)"
  shows "windows_bounded (monitor (fire ev g))"
proof (cases ev)
  case Toggle
  with assms show ?thesis
    by (simp add: toggle_monitoring_def start_monitoring_def stop_monitoring_def windows_bounded_def)
next
  case (Step i e)
  have "windows_bounded (snd (worker_step e (threads (monitor g) ! i) (monitor g)))"
    using assms by (rule worker_step_bounded)
  with Step assms show ?thesis
    by (simp add: case_prod_unfold Let_def windows_bounded_def)
qed

lemma run_bounded:
  "windows_bounded (monitor g) \<Longrightarrow> windows_bounded (monitor (run evs g))"
  by (induction evs arbitrary: g) (simp_all add: fire_bounded)

lemma export_rows_bounded:
  "windows_bounded s \<Longrightarrow> windows_bounded (fst (export_rows s acc order))"
proof (induction order arbitrary: s acc)
  case Nil
  then show ?case by simp
next
  case (Cons ip order)
  have "windows_bounded (s\<lparr>bandwidth_data := touch (bandwidth_data s) ip,
                 packet_data := touch (packet_data s) ip\<rparr>)"
    using Cons.prems by (simp add: windows_bounded_def touch_window_get)
  then show ?case
    by (simp add: Let_def Cons.IH)
qed

lemma export_data_bounded:
  "windows_bounded (monitor g) \<Longrightarrow> windows_bounded (monitor (export_data order stamp io g))"
  using export_rows_bounded [of "monitor g" "[]" order]
  by (cases io) (simp_all add: export_data_def case_prod_unfold Let_def)

lemma reachable_bounded: "windows_bounded (monitor (run evs init_gui))"
  using windows_bounded_init by (simp add: run_bounded init_gui_def)

section \<open>Registration is idempotent, unregistration keeps the windows\<close>

lemma window_get_remove:
  "window_get (bandwidth_data (remove_ip_from_monitor s ip)) ip' = window_get (bandwidth_data s) ip'"
  by (simp add: remove_ip_from_monitor_def)

text \<open>
  C10. Unregistering a target removes it from the active set and leaves both window maps
  as they are, so total, average and peak of the unregistered target are those of the
  retained window.
\<close>

theorem remove_ip_keeps_windows:
  "monitored_ips (remove_ip_from_monitor s ip) = monitored_ips s - {ip}
   \<and> ip \<notin> monitored_ips (remove_ip_from_monitor s ip)
   \<and> bandwidth_data (remove_ip_from_monitor s ip) = bandwidth_data s
   \<and> packet_data (remove_ip_from_monitor s ip) = packet_data s
   \<and> get_total_bandwidth (remove_ip_from_monitor s ip) ip = get_total_bandwidth s ip
   \<and> get_average_bandwidth (remove_ip_from_monitor s ip) ip = get_average_bandwidth s ip
   \<and> get_peak_bandwidth (remove_ip_from_monitor s ip) ip = get_peak_bandwidth s ip"
  by (simp add: remove_ip_from_monitor_def get_total_bandwidth_def
        get_average_bandwidth_def get_peak_bandwidth_def)

theorem remove_ip_keeps_windows_witness:
  "''10.0.0.1'' \<in> monitored_ips loud_monitor
   \<and> ''10.0.0.1'' \<notin> monitored_ips (remove_ip_from_monitor loud_monitor ''10.0.0.1'')
   \<and> get_total_bandwidth (remove_ip_from_monitor loud_monitor ''10.0.0.1'') ''10.0.0.1'' = (2000000, 4096)
   \<and> get_average_bandwidth (remove_ip_from_monitor loud_monitor ''10.0.0.1'') ''10.0.0.1''
       = Inr (2000000, 4096)
   \<and> get_peak_bandwidth (remove_ip_from_monitor loud_monitor ''10.0.0.1'') ''10.0.0.1''
       = Inr (2000000, 4096)"
proof -
  have w: "window_get (bandwidth_data loud_monitor) ''10.0.0.1'' = \<lparr>sent = [2000000], received = [4096]\<rparr>"
    by (simp add: loud_monitor_def init_monitor_def store_sample_def append_sent_def
          append_received_def new_window_def deque_append_def MAXLEN_def window_get_def)
  have m: "''10.0.0.1'' \<in> monitored_ips loud_monitor"
    by (simp add: loud_monitor_def init_monitor_def store_sample_def)
  have t: "get_total_bandwidth loud_monitor ''10.0.0.1'' = (2000000, 4096)"
    by (simp add: get_total_bandwidth_def w)
  have a: "get_average_bandwidth loud_monitor ''10.0.0.1'' = Inr (2000000, 4096)"
    by (simp add: get_average_bandwidth_def w then_ok_def py_truediv_def)
  have p: "get_peak_bandwidth loud_monitor ''10.0.0.1'' = Inr (2000000, 4096)"
    by (simp add: get_peak_bandwidth_def w then_ok_def py_max_def)
  show ?thesis
    using m t a p remove_ip_keeps_windows [of loud_monitor "''10.0.0.1''"]
    by simp
qed

text \<open>
  C5. When the library accepts the string, \<^verbatim>\<open>add_ip_to_monitor\<close> returns True and the
  identifier is in the active set; registering it a second time returns True again and
  leaves the active set as the first registration made it, so every listing of the
  active set holds the identifier exactly once.
\<close>

theorem add_ip_idempotent:
  assumes "valid ip"
  shows "fst (add_ip_to_monitor valid s ip) = True
    \<and> monitored_ips (snd (add_ip_to_monitor valid s ip)) = insert ip (monitored_ips s)
    \<and> fst (add_ip_to_monitor valid (snd (add_ip_to_monitor valid s ip)) ip) = True
    \<and> monitored_ips (snd (add_ip_to_monitor valid (snd (add_ip_to_monitor valid s ip)) ip))
        = monitored_ips (snd (add_ip_to_monitor valid s ip))
    \<and> (\<forall>xs. distinct xs
           \<and> set xs = monitored_ips (snd (add_ip_to_monitor valid (snd (add_ip_to_monitor valid s ip)) ip))
          \<longrightarrow> count_list xs ip = 1)"
proof -
  have once: "count_list xs ip = 1" if "distinct xs" "ip \<in> set xs" for xs :: "string list"
    using that by (induction xs) auto
  have "monitored_ips (snd (add_ip_to_monitor valid (snd (add_ip_to_monitor valid s ip)) ip))
          = insert ip (monitored_ips s)"
    using assms by (simp add: add_ip_to_monitor_def)
  then have "\<forall>xs. distinct xs
           \<and> set xs = monitored_ips (snd (add_ip_to_monitor valid (snd (add_ip_to_monitor valid s ip)) ip))
          \<longrightarrow> count_list xs ip = 1"
    using once by simp
  moreover have "fst (add_ip_to_monitor valid s ip) = True
    \<and> monitored_ips (snd (add_ip_to_monitor valid s ip)) = insert ip (monitored_ips s)
    \<and> fst (add_ip_to_monitor valid (snd (add_ip_to_monitor valid s ip)) ip) = True
    \<and> monitored_ips (snd (add_ip_to_monitor valid (snd (add_ip_to_monitor valid s ip)) ip))
        = monitored_ips (snd (add_ip_to_monitor valid s ip))"
    using assms by (simp add: add_ip_to_monitor_def)
  ultimately show ?thesis by blast
qed

theorem add_ip_idempotent_witness:
  "dotted_quad ''192.168.1.10''
   \<and> fst (add_ip_to_monitor dotted_quad init_monitor ''192.168.1.10'') = True
   \<and> monitored_ips (snd (add_ip_to_monitor dotted_quad
         (snd (add_ip_to_monitor dotted_quad init_monitor ''192.168.1.10'')) ''192.168.1.10''))
       = {''192.168.1.10''}
   \<and> count_list [''192.168.1.10''] ''192.168.1.10'' = 1"
proof -
  have v: "dotted_quad ''192.168.1.10''"
    by (simp add: dotted_quad_def octet_ok_def is_digit_def decimal_def)
  show ?thesis
    using v add_ip_idempotent [of dotted_quad "''192.168.1.10''" init_monitor]
    by (simp add: init_monitor_def add_ip_to_monitor_def)
qed

text \<open>
  C6. When the library rejects the string, \<^verbatim>\<open>add_ip_to_monitor\<close> returns False; the
  active set, the windows and every other field but the log stay as they were, and the
  log gains the error record.
\<close>

theorem add_ip_invalid_rejected:
  assumes "\<not> valid ip"
  shows "fst (add_ip_to_monitor valid s ip) = False
    \<and> monitored_ips (snd (add_ip_to_monitor valid s ip)) = monitored_ips s
    \<and> snd (add_ip_to_monitor valid s ip)
        = s\<lparr>logging := logging s @ [(ERROR, ''Invalid IP address: '' @ ip)]\<rparr>"
  using assms by (simp add: add_ip_to_monitor_def)

theorem add_ip_invalid_rejected_witness:
  "\<not> dotted_quad ''999.999.999.999'' \<and> \<not> dotted_quad []
   \<and> fst (add_ip_to_monitor dotted_quad init_monitor ''999.999.999.999'') = False
   \<and> monitored_ips (snd (add_ip_to_monitor dotted_quad init_monitor ''999.999.999.999'')) = {}
   \<and> fst (add_ip_to_monitor dotted_quad init_monitor []) = False
   \<and> monitored_ips (snd (add_ip_to_monitor dotted_quad init_monitor [])) = {}"
proof -
  have a: "\<not> dotted_quad ''999.999.999.999''"
    by (simp add: dotted_quad_def octet_ok_def is_digit_def decimal_def)
  have b: "\<not> dotted_quad []"
    by (simp add: dotted_quad_def)
  show ?thesis
    using a b add_ip_invalid_rejected [of dotted_quad "''999.999.999.999''" init_monitor]
      add_ip_invalid_rejected [of dotted_quad "[]" init_monitor]
    by (simp add: init_monitor_def)
qed

section \<open>Empty and short windows\<close>

text \<open>
  C2. When the window of a target is empty (no entry, or no sent or no received value),
  average and peak return (0, 0) without raising; when it holds fewer than two sent
  values, trend returns insufficient_data with slope 0, whatever numpy would compute.
\<close>

theorem empty_window_defaults:
  fixes polyfit :: "int list \<Rightarrow> int list \<Rightarrow> 'f::{zero,ord}"
  shows "(sent (window_get (bandwidth_data s) ip) = [] \<or> received (window_get (bandwidth_data s) ip) = []
      \<longrightarrow> get_average_bandwidth s ip = Inr (0, 0) \<and> get_peak_bandwidth s ip = Inr (0, 0))
    \<and> (length (sent (window_get (bandwidth_data s) ip)) < 2
      \<longrightarrow> get_bandwidth_trend polyfit s ip = (''insufficient_data'', 0))"
  by (simp add: get_average_bandwidth_def get_peak_bandwidth_def get_bandwidth_trend_def)

theorem empty_window_defaults_witness:
  "sent (window_get (bandwidth_data init_monitor) ''10.0.0.1'') = []
   \<and> get_average_bandwidth init_monitor ''10.0.0.1'' = Inr (0, 0)
   \<and> get_peak_bandwidth init_monitor ''10.0.0.1'' = Inr (0, 0)
   \<and> get_bandwidth_trend (\<lambda>x y. 1 :: rat) init_monitor ''10.0.0.1'' = (''insufficient_data'', 0)
   \<and> sent (window_get (bandwidth_data (store_sample init_monitor ''10.0.0.1''
         \<lparr>bytes_sent = 5000, bytes_received = 7000, packets_sent = 20, packets_received = 30\<rparr>))
         ''10.0.0.1'') = [5000]
   \<and> get_bandwidth_trend (\<lambda>x y. 1 :: rat) (store_sample init_monitor ''10.0.0.1''
         \<lparr>bytes_sent = 5000, bytes_received = 7000, packets_sent = 20, packets_received = 30\<rparr>)
         ''10.0.0.1'' = (''insufficient_data'', 0)"
proof -
  let ?s1 = "store_sample init_monitor ''10.0.0.1''
         \<lparr>bytes_sent = 5000, bytes_received = 7000, packets_sent = 20, packets_received = 30\<rparr>"
  have e: "sent (window_get (bandwidth_data init_monitor) ''10.0.0.1'') = []"
    by (simp add: init_monitor_def window_get_def)
  have o: "sent (window_get (bandwidth_data ?s1) ''10.0.0.1'') = [5000]"
    by (simp add: init_monitor_def window_get_def store_sample_def append_sent_def
          append_received_def new_window_def deque_append_def MAXLEN_def)
  show ?thesis
    using e o empty_window_defaults [of init_monitor "''10.0.0.1''" "\<lambda>x y. 1 :: rat"]
      empty_window_defaults [of ?s1 "''10.0.0.1''" "\<lambda>x y. 1 :: rat"]
    by simp
qed

section \<open>Alerts\<close>

lemma exceeds_Max: "exceeds xs thr = Inr (xs \<noteq> [] \<and> thr < Max (set xs))"
  by (cases xs) (simp_all add: exceeds_def then_ok_def py_max_def Max.set_eq_fold del: set_simps)

lemma alert_if_exceeds_eq:
  "alert_if_exceeds now sys ip xs thr ty before after =
     Inr (if xs \<noteq> [] \<and> thr < Max (set xs)
          then create_alert now sys ip ty (before @ str_int (Max (set xs)) @ after)
          else sys)"
  by (cases xs)
     (simp_all add: alert_if_exceeds_def exceeds_Max then_ok_def py_max_def Max.set_eq_fold
        del: set_simps)

lemma with_alerts_append: "with_alerts (with_alerts sys xs) ys = with_alerts sys (xs @ ys)"
  by (simp add: with_alerts_def)

lemma with_alerts_thresholds: "alert_thresholds (with_alerts sys new) = alert_thresholds sys"
  by (simp add: with_alerts_def)

lemma alert_if_exceeds_raised:
  "alert_if_exceeds now sys ip xs thr ty before after =
     Inr (with_alerts sys (raised now ip xs thr ty before after))"
  by (simp add: alert_if_exceeds_eq raised_def with_alerts_def create_alert_def alert_warning_def)

lemma check_ip_produced:
  "check_ip now mon sys ip = Inr (with_alerts sys (produced now mon (alert_thresholds sys) ip))"
  by (simp add: check_ip_def Let_def alert_if_exceeds_raised then_ok_def with_alerts_append
        with_alerts_thresholds produced_def)

lemma check_for_anomalies_produced:
  "check_for_anomalies now mon sys order =
     Inr (with_alerts sys (concat (map (produced now mon (alert_thresholds sys)) order)))"
proof (induction order arbitrary: sys)
  case Nil
  show ?case by (simp add: with_alerts_def)
next
  case (Cons ip order)
  show ?case
    by (simp add: check_ip_produced then_ok_def Cons.IH with_alerts_append with_alerts_thresholds)
qed

lemma alerts_of_raised:
  "alerts_of ip ty (raised now ip' xs thr ty' before after) =
     (if ip = ip' \<and> ty = ty' then raised now ip' xs thr ty' before after else [])"
  by (auto simp: alerts_of_def raised_def)

lemma alerts_of_Nil: "alerts_of ip ty [] = []"
  by (simp add: alerts_of_def)

lemma alerts_of_append: "alerts_of ip ty (xs @ ys) = alerts_of ip ty xs @ alerts_of ip ty ys"
  by (simp add: alerts_of_def)

lemma alerts_of_produced_out:
  "alerts_of ip ''HIGH_BANDWIDTH_OUT'' (produced now mon thr ip') =
     (if ip = ip'
      then raised now ip (sent (window_get (bandwidth_data mon) ip)) (high_bandwidth thr)
             ''HIGH_BANDWIDTH_OUT'' ''High outbound bandwidth detected: '' '' bytes''
      else [])"
  by (simp add: produced_def alerts_of_append alerts_of_raised)

lemma alerts_of_listing:
  assumes "distinct order" and "ip \<in> set order"
  shows "alerts_of ip ''HIGH_BANDWIDTH_OUT'' (concat (map (produced now mon thr) order)) =
     raised now ip (sent (window_get (bandwidth_data mon) ip)) (high_bandwidth thr)
       ''HIGH_BANDWIDTH_OUT'' ''High outbound bandwidth detected: '' '' bytes''"
proof -
  have none: "alerts_of ip ''HIGH_BANDWIDTH_OUT'' (concat (map (produced now mon thr) xs)) = []"
    if "ip \<notin> set xs" for xs
    using that by (induction xs) (auto simp: alerts_of_Nil alerts_of_append alerts_of_produced_out)
  from assms show ?thesis
  proof (induction order)
    case Nil
    then show ?case by simp
  next
    case (Cons x xs)
    show ?case
    proof (cases "ip = x")
      case True
      with Cons.prems have "ip \<notin> set xs" by simp
      then have "alerts_of ip ''HIGH_BANDWIDTH_OUT'' (concat (map (produced now mon thr) xs)) = []"
        by (rule none)
      with True show ?thesis
        by (simp add: alerts_of_append alerts_of_produced_out)
    next
      case False
      with Cons show ?thesis
        by (simp add: alerts_of_append alerts_of_produced_out)
    qed
  qed
qed

lemma foldl_deque_append:
  "length old \<le> m \<Longrightarrow> foldl (deque_append m) old new = last_n m (old @ new)"
proof (induction new arbitrary: old)
  case Nil
  then show ?case by (simp add: last_n_short)
next
  case (Cons a new)
  have "length (deque_append m old a) \<le> m"
    using Cons.prems by (rule length_deque_append)
  then have "foldl (deque_append m) (deque_append m old a) new
      = last_n m (deque_append m old a @ new)"
    by (rule Cons.IH)
  also have "\<dots> = last_n m (last_n m (old @ [a]) @ new)"
    using Cons.prems by (simp add: deque_append_last_n)
  also have "\<dots> = last_n m ((old @ [a]) @ new)"
    by (rule last_n_absorb)
  finally show ?case by simp
qed

text \<open>
  C4. With the outbound threshold at 1000000 and a registered target whose window
  holds a sent value of 2000000, one run of \<^verbatim>\<open>check_for_anomalies\<close> returns normally;
  among the alerts it creates (each appended to the ring of 100 and logged), exactly one
  is a HIGH_BANDWIDTH_OUT alert for the target, and its severity is MEDIUM.
\<close>

theorem high_outbound_alert:
  assumes "listing order (monitored_ips mon)"
    and "ip \<in> monitored_ips mon"
    and "2000000 \<in> set (sent (window_get (bandwidth_data mon) ip))"
    and "high_bandwidth (alert_thresholds sys) = 1000000"
    and "length (alerts sys) \<le> 100"
  shows "\<exists>sys' new. check_for_anomalies now mon sys order = Inr sys'
      \<and> alerts sys' = last_n 100 (alerts sys @ new)
      \<and> alert_logging sys' = alert_logging sys @ map alert_warning new
      \<and> alerts_of ip ''HIGH_BANDWIDTH_OUT'' new =
          [\<lparr>a_timestamp = now ip ''HIGH_BANDWIDTH_OUT'', a_ip_address = ip,
            a_type = ''HIGH_BANDWIDTH_OUT'',
            a_message = ''High outbound bandwidth detected: ''
               @ str_int (Max (set (sent (window_get (bandwidth_data mon) ip)))) @ '' bytes'',
            a_severity = ''MEDIUM''\<rparr>]"
proof -
  let ?xs = "sent (window_get (bandwidth_data mon) ip)"
  let ?new = "concat (map (produced now mon (alert_thresholds sys)) order)"
  have order: "distinct order" "ip \<in> set order"
    using assms(1,2) by (simp_all add: listing_def)
  have "2000000 \<le> Max (set ?xs)"
    using assms(3) by (simp add: Max_ge)
  moreover have "?xs \<noteq> []"
    using assms(3) by auto
  ultimately have out: "raised now ip ?xs (high_bandwidth (alert_thresholds sys))
       ''HIGH_BANDWIDTH_OUT'' ''High outbound bandwidth detected: '' '' bytes'' =
     [\<lparr>a_timestamp = now ip ''HIGH_BANDWIDTH_OUT'', a_ip_address = ip,
            a_type = ''HIGH_BANDWIDTH_OUT'',
            a_message = ''High outbound bandwidth detected: '' @ str_int (Max (set ?xs)) @ '' bytes'',
            a_severity = ''MEDIUM''\<rparr>]"
    using assms(4) by (simp add: raised_def get_alert_severity_def)
  have "check_for_anomalies now mon sys order = Inr (with_alerts sys ?new)"
    by (rule check_for_anomalies_produced)
  moreover have "alerts (with_alerts sys ?new) = last_n 100 (alerts sys @ ?new)"
    using assms(5) by (simp add: with_alerts_def foldl_deque_append)
  moreover have "alert_logging (with_alerts sys ?new) = alert_logging sys @ map alert_warning ?new"
    by (simp add: with_alerts_def)
  moreover have "alerts_of ip ''HIGH_BANDWIDTH_OUT'' ?new =
     [\<lparr>a_timestamp = now ip ''HIGH_BANDWIDTH_OUT'', a_ip_address = ip,
            a_type = ''HIGH_BANDWIDTH_OUT'',
            a_message = ''High outbound bandwidth detected: '' @ str_int (Max (set ?xs)) @ '' bytes'',
            a_severity = ''MEDIUM''\<rparr>]"
    using order by (simp add: alerts_of_listing out)
  ultimately show ?thesis by blast
qed

theorem high_outbound_alert_witness:
  "listing [''10.0.0.1''] (monitored_ips loud_monitor)
   \<and> ''10.0.0.1'' \<in> monitored_ips loud_monitor
   \<and> 2000000 \<in> set (sent (window_get (bandwidth_data loud_monitor) ''10.0.0.1''))
   \<and> high_bandwidth (alert_thresholds strict_alert_system) = 1000000
   \<and> length (alerts strict_alert_system) \<le> 100
   \<and> check_for_anomalies (\<lambda>ip ty. 7) loud_monitor strict_alert_system [''10.0.0.1''] =
       Inr (strict_alert_system
         \<lparr>alerts :=
            [\<lparr>a_timestamp = 7, a_ip_address = ''10.0.0.1'', a_type = ''HIGH_BANDWIDTH_OUT'',
              a_message = ''High outbound bandwidth detected: 2000000 bytes'',
              a_severity = ''MEDIUM''\<rparr>],
          alert_logging :=
            [(WARNING, ''SECURITY ALERT - HIGH_BANDWIDTH_OUT: High outbound bandwidth detected: 2000000 bytes for IP 10.0.0.1'')]\<rparr>)"
proof -
  have w: "window_get (bandwidth_data loud_monitor) ''10.0.0.1'' = \<lparr>sent = [2000000], received = [4096]\<rparr>"
    by (simp add: loud_monitor_def init_monitor_def store_sample_def append_sent_def
          append_received_def new_window_def deque_append_def MAXLEN_def window_get_def)
  have p: "window_get (packet_data loud_monitor) ''10.0.0.1'' = \<lparr>sent = [20], received = [30]\<rparr>"
    by (simp add: loud_monitor_def init_monitor_def store_sample_def append_sent_def
          append_received_def new_window_def deque_append_def MAXLEN_def window_get_def)
  have h1: "listing [''10.0.0.1''] (monitored_ips loud_monitor)"
    by (simp add: listing_def loud_monitor_def init_monitor_def store_sample_def)
  have h2: "''10.0.0.1'' \<in> monitored_ips loud_monitor"
    by (simp add: loud_monitor_def init_monitor_def store_sample_def)
  have h3: "2000000 \<in> set (sent (window_get (bandwidth_data loud_monitor) ''10.0.0.1''))"
    by (simp add: w)
  have h4: "high_bandwidth (alert_thresholds strict_alert_system) = 1000000"
    by (simp add: strict_alert_system_def init_alert_system_def)
  have h5: "length (alerts strict_alert_system) \<le> 100"
    by (simp add: strict_alert_system_def init_alert_system_def)
  have run: "check_for_anomalies (\<lambda>ip ty. 7) loud_monitor strict_alert_system [''10.0.0.1''] =
       Inr (strict_alert_system
         \<lparr>alerts :=
            [\<lparr>a_timestamp = 7, a_ip_address = ''10.0.0.1'', a_type = ''HIGH_BANDWIDTH_OUT'',
              a_message = ''High outbound bandwidth detected: 2000000 bytes'',
              a_severity = ''MEDIUM''\<rparr>],
          alert_logging :=
            [(WARNING, ''SECURITY ALERT - HIGH_BANDWIDTH_OUT: High outbound bandwidth detected: 2000000 bytes for IP 10.0.0.1'')]\<rparr>)"
    by (simp add: check_ip_def w p alert_if_exceeds_def exceeds_def py_max_def then_ok_def
          strict_alert_system_def init_alert_system_def create_alert_def deque_append_def
          get_alert_severity_def str_int_def str_nat.simps digit_char_def)
  show ?thesis
    using h1 h2 h3 h4 h5 run
      high_outbound_alert [OF h1 h2 h3 h4 h5, of "\<lambda>ip ty. 7"]
    by simp
qed

section \<open>Starting and stopping\<close>

lemma loop_body_Inr: "\<exists>s'. loop_body e s ip = Inr s' \<and> monitoring s' = monitoring s \<and> threads s' = threads s"
  by (cases "tick_fault e")
     (simp_all add: loop_body_def Let_def then_ok_def add_bandwidth_log_def sqlite_connect_def
        sqlite_execute_def sqlite_commit_def sqlite_close_def store_sample_def)

lemma worker_step_frame:
  "monitoring (snd (worker_step e w s)) = monitoring s
   \<and> threads (snd (worker_step e w s)) = threads s"
proof (cases w)
  case At_while
  then show ?thesis by simp
next
  case (In_for rest)
  show ?thesis
  proof (cases rest)
    case Nil
    with In_for show ?thesis by simp
  next
    case (Cons ip rest')
    obtain s' where "loop_body e s ip = Inr s'" "monitoring s' = monitoring s" "threads s' = threads s"
      using loop_body_Inr by blast
    with In_for Cons show ?thesis by simp
  qed
next
  case Finished
  then show ?thesis by simp
qed

lemma worker_step_outside:
  "\<not> monitoring s \<Longrightarrow> outside_pass w \<Longrightarrow> worker_step e w s = (Finished, s)"
  by (cases w) simp_all

lemma list_all_update: "list_all P xs \<Longrightarrow> P y \<Longrightarrow> list_all P (xs[i := y])"
  by (induction xs arbitrary: i) (auto split: nat.splits)

lemma fire_step_stopped:
  assumes "stopped g"
  shows "stopped (fire (Step i e) g) \<and> samples (fire (Step i e) g) = samples g"
proof (cases "i < length (threads (monitor g))")
  case True
  have flag: "\<not> monitoring (monitor g)" and all: "list_all outside_pass (threads (monitor g))"
    using assms by (simp_all add: stopped_def)
  have "outside_pass (threads (monitor g) ! i)"
    using all True by (simp add: list_all_length)
  then have step: "worker_step e (threads (monitor g) ! i) (monitor g) = (Finished, monitor g)"
    using flag by (simp add: worker_step_outside)
  have "list_all outside_pass ((threads (monitor g))[i := Finished])"
    using all by (rule list_all_update) simp
  with True flag step show ?thesis
    by (simp add: stopped_def samples_def)
next
  case False
  with assms show ?thesis by simp
qed

lemma run_steps_stopped:
  "stopped g \<Longrightarrow> list_all is_step evs \<Longrightarrow> stopped (run evs g) \<and> samples (run evs g) = samples g"
proof (induction evs arbitrary: g)
  case Nil
  then show ?case by simp
next
  case (Cons ev evs)
  from Cons.prems(2) obtain i e where ev: "ev = Step i e"
    by (cases ev) simp_all
  have "stopped (fire ev g)" "samples (fire ev g) = samples g"
    using fire_step_stopped [OF Cons.prems(1)] ev by simp_all
  moreover have "list_all is_step evs"
    using Cons.prems(2) by simp
  ultimately show ?case
    using Cons.IH [of "fire ev g"] by simp
qed

lemma fire_own_step:
  assumes "i < length (threads (monitor g))"
  shows "threads (monitor (fire (Step i e) g)) =
      (threads (monitor g))[i := fst (worker_step e (threads (monitor g) ! i) (monitor g))]
    \<and> monitoring (monitor (fire (Step i e) g)) = monitoring (monitor g)"
  using assms worker_step_frame [of e "threads (monitor g) ! i" "monitor g"]
  by (simp add: case_prod_unfold Let_def)

lemma remaining_step:
  assumes "\<not> monitoring s"
  shows "remaining (fst (worker_step e w s)) = remaining w - 1"
proof (cases w)
  case At_while
  with assms show ?thesis by simp
next
  case (In_for rest)
  show ?thesis
  proof (cases rest)
    case Nil
    with In_for show ?thesis by simp
  next
    case (Cons ip rest')
    obtain s' where "loop_body e s ip = Inr s'"
      using loop_body_Inr by blast
    with In_for Cons show ?thesis by simp
  qed
next
  case Finished
  then show ?thesis by simp
qed

lemma drain:
  assumes "\<not> monitoring (monitor g)" and "i < length (threads (monitor g))"
    and "remaining (threads (monitor g) ! i) \<le> length es"
  shows "threads (monitor (run (map (Step i) es) g)) = (threads (monitor g))[i := Finished]
    \<and> \<not> monitoring (monitor (run (map (Step i) es) g))"
  using assms
proof (induction es arbitrary: g)
  case Nil
  then have "threads (monitor g) ! i = Finished"
    by (cases "threads (monitor g) ! i") simp_all
  then have "(threads (monitor g))[i := Finished] = threads (monitor g)"
    by (metis list_update_id)
  with Nil show ?case by simp
next
  case (Cons e es)
  let ?g = "fire (Step i e) g"
  let ?w = "threads (monitor g) ! i"
  let ?w' = "fst (worker_step e ?w (monitor g))"
  have own: "threads (monitor ?g) = (threads (monitor g))[i := ?w']"
    and flag: "\<not> monitoring (monitor ?g)"
    using fire_own_step [OF Cons.prems(2)] Cons.prems(1) by simp_all
  have i: "i < length (threads (monitor ?g))"
    using own Cons.prems(2) by simp
  have at: "threads (monitor ?g) ! i = ?w'"
    using own Cons.prems(2) by simp
  have "remaining ?w' = remaining ?w - 1"
    using Cons.prems(1) by (rule remaining_step)
  with Cons.prems(3) at have "remaining (threads (monitor ?g) ! i) \<le> length es"
    by simp
  from Cons.IH [OF flag i this]
  have "threads (monitor (run (map (Step i) es) ?g)) = (threads (monitor ?g))[i := Finished]
      \<and> \<not> monitoring (monitor (run (map (Step i) es) ?g))" .
  with own show ?case by simp
qed

lemma remaining_le: "remaining w \<le> length (pending w) + 2"
  by (cases w) simp_all

text \<open>
  C7. A click on the monitoring button while idle with no registered target shows the
  warning and changes nothing else: the monitor, its flag and the GUI's own flag stay as
  they were. With a registered target the click sets both flags and starts the thread.
  A click while running clears both flags. The stop is cooperative: after the flag is
  cleared, a thread needs no more steps than the targets left in its pass plus two to
  return; and once the flag is cleared and no thread is inside a pass, no step of any
  thread changes the windows, the table or the queue, and that stays so.
\<close>

theorem monitoring_lifecycle:
  "(\<not> monitoring_active g \<and> monitored_ips (monitor g) = {} \<longrightarrow>
      toggle_monitoring g = g\<lparr>dialogs := dialogs g @
          [(''showwarning'', ''Warning'', ''Please add at least one IP address to monitor'')]\<rparr>
      \<and> monitor (toggle_monitoring g) = monitor g
      \<and> \<not> monitoring_active (toggle_monitoring g))
   \<and> (\<not> monitoring_active g \<and> monitored_ips (monitor g) \<noteq> {} \<longrightarrow>
      monitoring_active (toggle_monitoring g) \<and> monitoring (monitor (toggle_monitoring g))
      \<and> threads (monitor (toggle_monitoring g)) = threads (monitor g) @ [At_while]
      \<and> samples (toggle_monitoring g) = samples g)
   \<and> (monitoring_active g \<longrightarrow>
      \<not> monitoring_active (toggle_monitoring g) \<and> \<not> monitoring (monitor (toggle_monitoring g))
      \<and> threads (monitor (toggle_monitoring g)) = threads (monitor g)
      \<and> samples (toggle_monitoring g) = samples g)
   \<and> (\<not> monitoring (monitor g) \<and> i < length (threads (monitor g))
        \<and> length (pending (threads (monitor g) ! i)) + 2 \<le> length es \<longrightarrow>
      threads (monitor (run (map (Step i) es) g)) = (threads (monitor g))[i := Finished]
      \<and> \<not> monitoring (monitor (run (map (Step i) es) g)))
   \<and> (stopped g \<and> list_all is_step evs \<longrightarrow>
      stopped (run evs g) \<and> samples (run evs g) = samples g)"
proof -
  have empty: "\<not> monitoring_active g \<and> monitored_ips (monitor g) = {} \<longrightarrow>
      toggle_monitoring g = g\<lparr>dialogs := dialogs g @
          [(''showwarning'', ''Warning'', ''Please add at least one IP address to monitor'')]\<rparr>
      \<and> monitor (toggle_monitoring g) = monitor g
      \<and> \<not> monitoring_active (toggle_monitoring g)"
    by (simp add: toggle_monitoring_def)
  have start: "\<not> monitoring_active g \<and> monitored_ips (monitor g) \<noteq> {} \<longrightarrow>
      monitoring_active (toggle_monitoring g) \<and> monitoring (monitor (toggle_monitoring g))
      \<and> threads (monitor (toggle_monitoring g)) = threads (monitor g) @ [At_while]
      \<and> samples (toggle_monitoring g) = samples g"
    by (simp add: toggle_monitoring_def start_monitoring_def samples_def)
  have stop: "monitoring_active g \<longrightarrow>
      \<not> monitoring_active (toggle_monitoring g) \<and> \<not> monitoring (monitor (toggle_monitoring g))
      \<and> threads (monitor (toggle_monitoring g)) = threads (monitor g)
      \<and> samples (toggle_monitoring g) = samples g"
    by (simp add: toggle_monitoring_def stop_monitoring_def samples_def)
  have completes: "\<not> monitoring (monitor g) \<and> i < length (threads (monitor g))
        \<and> length (pending (threads (monitor g) ! i)) + 2 \<le> length es \<longrightarrow>
      threads (monitor (run (map (Step i) es) g)) = (threads (monitor g))[i := Finished]
      \<and> \<not> monitoring (monitor (run (map (Step i) es) g))"
  proof (intro impI)
    assume a: "\<not> monitoring (monitor g) \<and> i < length (threads (monitor g))
        \<and> length (pending (threads (monitor g) ! i)) + 2 \<le> length es"
    then have "remaining (threads (monitor g) ! i) \<le> length es"
      using remaining_le [of "threads (monitor g) ! i"] by simp
    with a show "threads (monitor (run (map (Step i) es) g)) = (threads (monitor g))[i := Finished]
      \<and> \<not> monitoring (monitor (run (map (Step i) es) g))"
      by (simp add: drain)
  qed
  have quiet: "stopped g \<and> list_all is_step evs \<longrightarrow>
      stopped (run evs g) \<and> samples (run evs g) = samples g"
    using run_steps_stopped by blast
  from empty start stop completes quiet show ?thesis
    by blast
qed

lemmas run_defs = stop_in_pass_def two_targets_def init_gui_def init_monitor_def sample_tick_def
     toggle_monitoring_def start_monitoring_def stop_monitoring_def loop_body_def then_ok_def
     add_bandwidth_log_def sqlite_connect_def sqlite_execute_def sqlite_commit_def sqlite_close_def
     store_sample_def append_sent_def append_received_def new_window_def deque_append_def MAXLEN_def

text \<open>
  The pass that is under way when the button is clicked is finished first: the next
  step of the thread still samples the second target.
\<close>

lemma pass_in_flight_completes:
  "\<not> monitoring_active (run stop_in_pass two_targets)
   \<and> \<not> monitoring (monitor (run stop_in_pass two_targets))
   \<and> threads (monitor (run stop_in_pass two_targets)) = [In_for [''10.0.0.2'']]
   \<and> bandwidth_data (monitor (run stop_in_pass two_targets)) ''10.0.0.2'' = None
   \<and> bandwidth_data (monitor (run (stop_in_pass @ [Step 0 sample_tick]) two_targets)) ''10.0.0.2''
        = Some \<lparr>sent = [5000], received = [7000]\<rparr>
   \<and> threads (monitor (run (stop_in_pass @ [Step 0 sample_tick]) two_targets)) = [In_for []]"
  by (simp add: run_defs)

theorem monitoring_lifecycle_witness:
  "\<not> monitoring_active init_gui \<and> monitored_ips (monitor init_gui) = {}
   \<and> monitor (toggle_monitoring init_gui) = monitor init_gui
   \<and> \<not> monitoring_active (toggle_monitoring init_gui)
   \<and> monitored_ips (monitor two_targets) \<noteq> {}
   \<and> monitoring_active (toggle_monitoring two_targets)
   \<and> \<not> monitoring_active (toggle_monitoring (toggle_monitoring two_targets))
   \<and> threads (monitor (run stop_in_pass two_targets)) = [In_for [''10.0.0.2'']]
   \<and> stopped (run (map (Step 0) [sample_tick, sample_tick, sample_tick]) (run stop_in_pass two_targets))
   \<and> samples (run [Step 0 sample_tick, Step 0 sample_tick]
         (run (map (Step 0) [sample_tick, sample_tick, sample_tick]) (run stop_in_pass two_targets)))
       = samples (run (map (Step 0) [sample_tick, sample_tick, sample_tick]) (run stop_in_pass two_targets))"
proof -
  let ?g = "run stop_in_pass two_targets"
  let ?g' = "run (map (Step 0) [sample_tick, sample_tick, sample_tick]) ?g"
  have a: "\<not> monitoring_active init_gui \<and> monitored_ips (monitor init_gui) = {}"
    by (simp add: init_gui_def init_monitor_def)
  have b: "\<not> monitoring_active two_targets \<and> monitored_ips (monitor two_targets) \<noteq> {}"
    by (simp add: two_targets_def init_gui_def init_monitor_def)
  have c: "monitoring_active (toggle_monitoring two_targets)"
    using b monitoring_lifecycle [of two_targets] by blast
  have d: "\<not> monitoring_active (toggle_monitoring (toggle_monitoring two_targets))"
    using c monitoring_lifecycle [of "toggle_monitoring two_targets"] by blast
  have e: "\<not> monitoring (monitor ?g)" "threads (monitor ?g) = [In_for [''10.0.0.2'']]"
    by (simp_all add: run_defs)
  then have "\<not> monitoring (monitor ?g) \<and> 0 < length (threads (monitor ?g))
      \<and> length (pending (threads (monitor ?g) ! 0)) + 2 \<le> length [sample_tick, sample_tick, sample_tick]"
    by simp
  then have "threads (monitor ?g') = (threads (monitor ?g))[0 := Finished] \<and> \<not> monitoring (monitor ?g')"
    using monitoring_lifecycle [of ?g 0 "[sample_tick, sample_tick, sample_tick]"] by blast
  then have f: "stopped ?g'"
    using e by (simp add: stopped_def)
  have "list_all is_step [Step 0 sample_tick, Step 0 sample_tick]"
    by simp
  with f have h: "samples (run [Step 0 sample_tick, Step 0 sample_tick] ?g') = samples ?g'"
    using monitoring_lifecycle [of ?g' 0 "[]" "[Step 0 sample_tick, Step 0 sample_tick]"] by blast
  from a b c d e f h monitoring_lifecycle [of init_gui] show ?thesis
    by blast
qed

section \<open>Persistence failures\<close>

lemma add_bandwidth_log_eq:
  "add_bandwidth_log fault s row =
     Inr (s\<lparr>db := db s @ (if committed fault then [row] else []),
           logging := logging s @
             (case fault_text fault of None \<Rightarrow> []
              | Some m \<Rightarrow> [(ERROR, ''Error adding bandwidth log: '' @ m)])\<rparr>)"
  by (cases fault)
     (simp_all add: add_bandwidth_log_def then_ok_def sqlite_connect_def sqlite_execute_def
        sqlite_commit_def sqlite_close_def committed_def fault_text_def)

text \<open>
  C8. Whatever call on the database raises, \<^verbatim>\<open>add_bandwidth_log\<close> returns normally: the
  log gains the error record with the text of the exception (nothing when no call
  raises), and the row is in the table exactly when the commit had returned. The loop
  body that called it goes on: it puts the sample on the queue and moves to the next
  target of the pass.
\<close>

theorem add_bandwidth_log_swallows:
  "(\<exists>s'. add_bandwidth_log fault s row = Inr s'
        \<and> logging s' = logging s @
             (case fault_text fault of None \<Rightarrow> []
              | Some m \<Rightarrow> [(ERROR, ''Error adding bandwidth log: '' @ m)])
        \<and> db s' = db s @ (if committed fault then [row] else []))
   \<and> (\<exists>s1. add_bandwidth_log (tick_fault e) (store_sample s ip (tick_traffic e))
               (log_row ip (tick_traffic e)) = Inr s1
        \<and> worker_step e (In_for (ip # rest)) s =
            (In_for rest,
             s1\<lparr>data_queue := data_queue s1 @ [queue_entry ip (tick_traffic e) (tick_stamp e)]\<rparr>))"
  by (simp add: add_bandwidth_log_eq loop_body_def Let_def then_ok_def log_row_def queue_entry_def)

theorem add_bandwidth_log_swallows_witness:
  "fst (worker_step (sample_tick\<lparr>tick_fault := Commit_fails ''database is locked''\<rparr>)
          (In_for [''10.0.0.1'', ''10.0.0.2'']) init_monitor) = In_for [''10.0.0.2'']
   \<and> logging (snd (worker_step (sample_tick\<lparr>tick_fault := Commit_fails ''database is locked''\<rparr>)
          (In_for [''10.0.0.1'', ''10.0.0.2'']) init_monitor))
       = [(ERROR, ''Error adding bandwidth log: database is locked'')]
   \<and> db (snd (worker_step (sample_tick\<lparr>tick_fault := Commit_fails ''database is locked''\<rparr>)
          (In_for [''10.0.0.1'', ''10.0.0.2'']) init_monitor)) = []
   \<and> map q_ip (data_queue (snd (worker_step (sample_tick\<lparr>tick_fault := Commit_fails ''database is locked''\<rparr>)
          (In_for [''10.0.0.1'', ''10.0.0.2'']) init_monitor))) = [''10.0.0.1'']"
proof -
  let ?e = "sample_tick\<lparr>tick_fault := Commit_fails ''database is locked''\<rparr>"
  have "worker_step ?e (In_for [''10.0.0.1'', ''10.0.0.2'']) init_monitor =
      (In_for [''10.0.0.2''],
       (store_sample init_monitor ''10.0.0.1'' (tick_traffic ?e))
         \<lparr>logging := [(ERROR, ''Error adding bandwidth log: database is locked'')],
          data_queue := [queue_entry ''10.0.0.1'' (tick_traffic ?e) (tick_stamp ?e)]\<rparr>)"
    using add_bandwidth_log_swallows [of "Commit_fails ''database is locked''" init_monitor
      "log_row ''10.0.0.1'' (tick_traffic sample_tick)" ?e "''10.0.0.1''" "[''10.0.0.2'']"]
    by (simp add: loop_body_def then_ok_def add_bandwidth_log_def sqlite_connect_def
          sqlite_execute_def sqlite_commit_def sqlite_close_def sample_tick_def init_monitor_def
          store_sample_def queue_entry_def log_row_def)
  then show ?thesis
    by (simp add: store_sample_def init_monitor_def queue_entry_def)
qed

section \<open>Export\<close>

text \<open>
  C9. With no registered target and a file system that accepts the write,
  \<^verbatim>\<open>export_data\<close> writes the file with the empty object, shows the success box (and no
  error box) and leaves the monitor as it was.
\<close>

theorem export_empty_set:
  assumes "monitored_ips (monitor g) = {}"
    and "listing order (monitored_ips (monitor g))"
  shows "export_data order stamp None g =
     g\<lparr>files := files g @ [(''bandwidth_data_'' @ stamp @ ''.json'', [])],
       dialogs := dialogs g @
         [(''showinfo'', ''Success'', ''Data exported to '' @ ''bandwidth_data_'' @ stamp @ ''.json'')],
       status_var := ''Data exported to '' @ ''bandwidth_data_'' @ stamp @ ''.json'',
       log_messages := log_messages g @ [''Data exported to '' @ ''bandwidth_data_'' @ stamp @ ''.json'']\<rparr>"
proof -
  have "order = []"
    using assms by (simp add: listing_def)
  then show ?thesis
    by (simp add: export_data_def Let_def)
qed

theorem export_empty_set_witness:
  "monitored_ips (monitor init_gui) = {}
   \<and> listing [] (monitored_ips (monitor init_gui))
   \<and> files (export_data [] ''20240101_120000'' None init_gui)
       = [(''bandwidth_data_20240101_120000.json'', [])]
   \<and> dialogs (export_data [] ''20240101_120000'' None init_gui)
       = [(''showinfo'', ''Success'', ''Data exported to bandwidth_data_20240101_120000.json'')]
   \<and> monitor (export_data [] ''20240101_120000'' None init_gui) = init_monitor"
proof -
  have a: "monitored_ips (monitor init_gui) = {}"
    by (simp add: init_gui_def init_monitor_def)
  have b: "listing [] (monitored_ips (monitor init_gui))"
    by (simp add: listing_def init_gui_def init_monitor_def)
  show ?thesis
    using a b export_empty_set [OF a b, of "''20240101_120000''"]
    by (simp add: init_gui_def)
qed

section \<open>Trend\<close>

text \<open>
  With two or more sent values the trend is read off the sign of the slope that
  \<^verbatim>\<open>polyfit\<close> returns for the sent series against the indices 0, 1, ..., whatever that
  slope is.
\<close>

lemma trend_follows_slope:
  fixes polyfit :: "int list \<Rightarrow> int list \<Rightarrow> 'f::{zero,ord}"
  assumes "2 \<le> length (sent (window_get (bandwidth_data s) ip))"
  shows "get_bandwidth_trend polyfit s ip =
     (let ys = sent (window_get (bandwidth_data s) ip);
          slope = polyfit (map int [0 ..< length ys]) ys
      in (if 0 < slope then ''increasing'' else if slope < 0 then ''decreasing'' else ''stable'',
          slope))"
  using assms by (simp add: get_bandwidth_trend_def Let_def)

section \<open>The trend with the exact slope and with the computed slope\<close>

lemma indices_Suc: "indices (Suc n) = indices n @ [int n]"
  by (simp add: indices_def)

lemma length_indices: "length (indices n) = n"
  by (simp add: indices_def)

lemma lsq_slope_cross:
  "lsq_slope (indices (length ys)) ys
     = of_int (cross ys) / of_int (cross (indices (length ys)))"
  by (simp add: lsq_slope_def cross_def length_indices Let_def)

lemma weighted_snoc: "weighted (ys @ [y]) = weighted ys + int (length ys) * y"
  by (simp add: weighted_def indices_Suc length_indices)

lemma sum_indices_Suc: "sum_list (indices (Suc n)) = sum_list (indices n) + int n"
  by (simp add: indices_Suc)

lemma sum_indices: "2 * sum_list (indices n) = int n * (int n - 1)"
  by (induction n) (simp_all add: sum_indices_Suc indices_def algebra_simps)

lemma gain_snoc:
  "gain m (ys @ [v]) y = gain m ys y + (m - int (length ys)) * (y - v)"
  by (simp add: gain_def indices_Suc length_indices)

lemma gain_eq:
  "gain m ys y =
     m * int (length ys) * y - m * sum_list ys - sum_list (indices (length ys)) * y + weighted ys"
proof (induction ys rule: rev_induct)
  case Nil
  then show ?case by (simp add: gain_def weighted_def indices_def)
next
  case (snoc v ys)
  then show ?case
    by (simp add: gain_snoc weighted_snoc sum_indices_Suc algebra_simps)
qed

lemma cross_weighted:
  "cross ys = int (length ys) * weighted ys - sum_list (indices (length ys)) * sum_list ys"
  by (simp add: cross_def weighted_def)

lemma cross_snoc: "cross (ys @ [y]) = cross ys + gain (int (length ys)) ys y"
  by (simp add: cross_weighted weighted_snoc sum_indices_Suc gain_eq algebra_simps)

text \<open>The sign of the numerator for a monotone series.\<close>

lemma gain_neg:
  assumes "\<forall>v \<in> set ys. y < v" and "ys \<noteq> []"
  shows "gain (int (length ys)) ys y < 0"
proof -
  have "gain m ys y < 0" if "int (length ys) \<le> m" "\<forall>v \<in> set ys. y < v" "ys \<noteq> []" for m
    using that
  proof (induction ys rule: rev_induct)
    case Nil
    then show ?case by simp
  next
    case (snoc v ys)
    have neg: "(m - int (length ys)) * (y - v) < 0"
      using snoc.prems by (simp add: mult_pos_neg)
    show ?case
    proof (cases "ys = []")
      case True
      with neg show ?thesis by (simp add: gain_snoc gain_def indices_def)
    next
      case False
      with snoc have "gain m ys y < 0" by simp
      with neg show ?thesis by (simp add: gain_snoc)
    qed
  qed
  with assms show ?thesis by simp
qed

lemma cross_decreasing:
  "sorted_wrt (>) ys \<Longrightarrow> cross ys \<le> 0 \<and> (2 \<le> length ys \<longrightarrow> cross ys < 0)"
proof (induction ys rule: rev_induct)
  case Nil
  then show ?case by (simp add: cross_def indices_def)
next
  case (snoc y ys)
  have sorted: "sorted_wrt (>) ys" and below: "\<forall>v \<in> set ys. y < v"
    using snoc.prems by (auto simp: sorted_wrt_append)
  have ih: "cross ys \<le> 0"
    using snoc.IH sorted by simp
  show ?case
  proof (cases "ys = []")
    case True
    then show ?thesis by (simp add: cross_def indices_def)
  next
    case False
    have "gain (int (length ys)) ys y < 0"
      using below False by (rule gain_neg)
    with ih show ?thesis by (simp add: cross_snoc)
  qed
qed

lemma gain_pos:
  assumes "\<forall>v \<in> set ys. v < y" and "ys \<noteq> []"
  shows "0 < gain (int (length ys)) ys y"
proof -
  have "0 < gain m ys y" if "int (length ys) \<le> m" "\<forall>v \<in> set ys. v < y" "ys \<noteq> []" for m
    using that
  proof (induction ys rule: rev_induct)
    case Nil
    then show ?case by simp
  next
    case (snoc v ys)
    have pos: "0 < (m - int (length ys)) * (y - v)"
      using snoc.prems by simp
    show ?case
    proof (cases "ys = []")
      case True
      with pos show ?thesis by (simp add: gain_snoc gain_def indices_def)
    next
      case False
      with snoc have "0 < gain m ys y" by simp
      with pos show ?thesis by (simp add: gain_snoc)
    qed
  qed
  with assms show ?thesis by simp
qed

lemma cross_increasing:
  "sorted_wrt (<) ys \<Longrightarrow> 0 \<le> cross ys \<and> (2 \<le> length ys \<longrightarrow> 0 < cross ys)"
proof (induction ys rule: rev_induct)
  case Nil
  then show ?case by (simp add: cross_def indices_def)
next
  case (snoc y ys)
  have sorted: "sorted_wrt (<) ys" and above: "\<forall>v \<in> set ys. v < y"
    using snoc.prems by (auto simp: sorted_wrt_append)
  have ih: "0 \<le> cross ys"
    using snoc.IH sorted by simp
  show ?case
  proof (cases "ys = []")
    case True
    then show ?thesis by (simp add: cross_def indices_def)
  next
    case False
    have "0 < gain (int (length ys)) ys y"
      using above False by (rule gain_pos)
    with ih show ?thesis by (simp add: cross_snoc)
  qed
qed

lemma gain_constant: "\<forall>v \<in> set ys. v = y \<Longrightarrow> gain m ys y = 0"
  by (induction ys rule: rev_induct) (simp_all add: gain_snoc gain_def indices_def)

lemma cross_constant: "\<forall>v \<in> set ys. v = c \<Longrightarrow> cross ys = 0"
proof (induction ys rule: rev_induct)
  case Nil
  then show ?case by (simp add: cross_def indices_def)
next
  case (snoc y ys)
  then have "gain (int (length ys)) ys y = 0"
    by (simp add: gain_constant)
  with snoc show ?case by (simp add: cross_snoc)
qed

lemma cross_indices_pos: "2 \<le> n \<Longrightarrow> 0 < cross (indices n)"
proof -
  have "sorted_wrt (<) (indices n)"
    by (simp add: indices_def sorted_wrt_map)
  then show "2 \<le> n \<Longrightarrow> 0 < cross (indices n)"
    using cross_increasing [of "indices n"] by (simp add: length_indices)
qed

lemma exact_slope_sign:
  assumes "2 \<le> length ys"
  shows "(0 < lsq_slope (indices (length ys)) ys) = (0 < cross ys)"
    and "(lsq_slope (indices (length ys)) ys < 0) = (cross ys < 0)"
    and "(lsq_slope (indices (length ys)) ys = 0) = (cross ys = 0)"
proof -
  have "0 < cross (indices (length ys))"
    using assms by (rule cross_indices_pos)
  then have d: "0 < (of_int (cross (indices (length ys))) :: rat)"
    by simp
  show "(0 < lsq_slope (indices (length ys)) ys) = (0 < cross ys)"
    using d by (simp add: lsq_slope_cross zero_less_divide_iff)
  show "(lsq_slope (indices (length ys)) ys < 0) = (cross ys < 0)"
    using d by (simp add: lsq_slope_cross divide_less_0_iff)
  show "(lsq_slope (indices (length ys)) ys = 0) = (cross ys = 0)"
    using d by (simp add: lsq_slope_cross)
qed

text \<open>
  With the exact slope the trend is read off the sign of the numerator: every strictly
  increasing series of two or more values is increasing, every strictly decreasing one
  decreasing, and every constant one stable.
\<close>

lemma exact_trend:
  assumes "2 \<le> length (sent (window_get (bandwidth_data s) ip))"
  shows "fst (get_bandwidth_trend lsq_slope s ip) =
     (if 0 < cross (sent (window_get (bandwidth_data s) ip)) then ''increasing''
      else if cross (sent (window_get (bandwidth_data s) ip)) < 0 then ''decreasing''
      else ''stable'')"
  using assms exact_slope_sign [OF assms]
  by (simp add: get_bandwidth_trend_def Let_def indices_def [symmetric] length_indices)

lemma exact_examples:
  "2 \<le> length (sent (window_get (bandwidth_data s) ip))
     \<Longrightarrow> sorted_wrt (<) (sent (window_get (bandwidth_data s) ip))
     \<Longrightarrow> fst (get_bandwidth_trend lsq_slope s ip) = ''increasing''"
  "2 \<le> length (sent (window_get (bandwidth_data s) ip))
     \<Longrightarrow> sorted_wrt (>) (sent (window_get (bandwidth_data s) ip))
     \<Longrightarrow> fst (get_bandwidth_trend lsq_slope s ip) = ''decreasing''"
  "2 \<le> length (sent (window_get (bandwidth_data s) ip))
     \<Longrightarrow> \<forall>v \<in> set (sent (window_get (bandwidth_data s) ip)). v = c
     \<Longrightarrow> fst (get_bandwidth_trend lsq_slope s ip) = ''stable''"
  using cross_increasing [of "sent (window_get (bandwidth_data s) ip)"]
    cross_decreasing [of "sent (window_get (bandwidth_data s) ip)"]
    cross_constant [of "sent (window_get (bandwidth_data s) ip)" c]
  by (simp_all add: exact_trend)

text \<open>
  C3. On a window of four equal sent values the exact least-squares slope is 0, and with
  it the trend is stable. The code reports stable only when the slope that \<^verbatim>\<open>polyfit\<close>
  returns is exactly 0: the result follows the sign of the returned slope, so a slope
  that differs from the exact one by any residue, however small, gives decreasing
  (negative residue) or increasing (positive residue) on this constant series.
\<close>

theorem constant_series_trend:
  fixes polyfit :: "int list \<Rightarrow> int list \<Rightarrow> 'f::{zero,ord}"
  shows "sent (window_get (bandwidth_data flat_monitor) ''10.0.0.1'') = [5000, 5000, 5000, 5000]
    \<and> lsq_slope [0, 1, 2, 3] [5000, 5000, 5000, 5000] = 0
    \<and> get_bandwidth_trend lsq_slope flat_monitor ''10.0.0.1'' = (''stable'', 0)
    \<and> get_bandwidth_trend polyfit flat_monitor ''10.0.0.1'' =
        (let slope = polyfit [0, 1, 2, 3] [5000, 5000, 5000, 5000]
         in (if 0 < slope then ''increasing'' else if slope < 0 then ''decreasing'' else ''stable'',
             slope))
    \<and> (\<forall>r::rat. r < 0 \<longrightarrow>
          get_bandwidth_trend (\<lambda>x y. lsq_slope x y + r) flat_monitor ''10.0.0.1'' = (''decreasing'', r))
    \<and> (\<forall>r::rat. 0 < r \<longrightarrow>
          get_bandwidth_trend (\<lambda>x y. lsq_slope x y + r) flat_monitor ''10.0.0.1'' = (''increasing'', r))"
proof -
  have w: "window_get (bandwidth_data flat_monitor) ''10.0.0.1'' =
      \<lparr>sent = [5000, 5000, 5000, 5000], received = [7000, 7000, 7000, 7000]\<rparr>"
    by (simp add: flat_monitor_def flat_sample_def init_monitor_def store_sample_def append_sent_def
          append_received_def new_window_def deque_append_def MAXLEN_def window_get_def)
  have idx: "map int [0 ..< 4] = [0, 1, 2, 3]"
    by (simp add: upt_rec)
  have z: "lsq_slope [0, 1, 2, 3] [5000, 5000, 5000, 5000] = 0"
    by (simp add: lsq_slope_def)
  have any: "get_bandwidth_trend p flat_monitor ''10.0.0.1'' =
        (let slope = p [0, 1, 2, 3] [5000, 5000, 5000, 5000]
         in (if 0 < slope then ''increasing'' else if slope < 0 then ''decreasing'' else ''stable'',
             slope))" for p :: "int list \<Rightarrow> int list \<Rightarrow> 'g::{zero,ord}"
    by (simp add: get_bandwidth_trend_def w idx Let_def)
  have exact: "get_bandwidth_trend lsq_slope flat_monitor ''10.0.0.1'' = (''stable'', 0)"
    by (simp add: any z)
  have neg: "\<forall>r::rat. r < 0 \<longrightarrow>
      get_bandwidth_trend (\<lambda>x y. lsq_slope x y + r) flat_monitor ''10.0.0.1'' = (''decreasing'', r)"
    by (simp add: any z)
  have pos: "\<forall>r::rat. 0 < r \<longrightarrow>
      get_bandwidth_trend (\<lambda>x y. lsq_slope x y + r) flat_monitor ''10.0.0.1'' = (''increasing'', r)"
    by (simp add: any z)
  from w z exact any [of polyfit] neg pos show ?thesis
    by simp
qed

theorem constant_series_trend_witness:
  "(- (1 / 10 ^ 13) :: rat) < 0
   \<and> get_bandwidth_trend (\<lambda>x y. lsq_slope x y + (- (1 / 10 ^ 13))) flat_monitor ''10.0.0.1''
       = (''decreasing'', - (1 / 10 ^ 13))
   \<and> (0 :: rat) < 1 / 10 ^ 13
   \<and> get_bandwidth_trend (\<lambda>x y. lsq_slope x y + 1 / 10 ^ 13) flat_monitor ''10.0.0.1''
       = (''increasing'', 1 / 10 ^ 13)"
proof -
  have n: "(- (1 / 10 ^ 13) :: rat) < 0" by simp
  have p: "(0 :: rat) < 1 / 10 ^ 13" by simp
  show ?thesis
    using n p constant_series_trend [of "\<lambda>x y. 0 :: rat"]
    by blast
qed

end
